theory Spec2Isabelle
  imports Main "HOL-Library.Word" "HOL-Library.Product_Lexorder" "HOL-Library.Multiset"
    "HOL-Library.While_Combinator"
begin

unbundle bit_operations_syntax

text \<open>
  A shallow embedding of parts of MadFS (uLayFS), a user-space file system on persistent
  memory: the bitmap word and the transaction-log block of the persistent layout, the
  per-thread block allocator, the memory table, the block table, the write and read
  paths of a file, and the entry points of the library. Machine integers are words of
  their width; a function that can throw, or fail an assertion, returns a sum with the
  error on the left; state is passed in and returned.
\<close>

section \<open>Layout constants\<close>

text \<open>
  The constants of the persistent layout (\<^verbatim>\<open>src/tools/from_ulayfs.cpp\<close>, block.h part):
  \<^verbatim>\<open>BLOCK_SIZE = 4096\<close>,
  \<^verbatim>\<open>NUM_TX_ENTRY = (BLOCK_SIZE - 2 * sizeof(BlockIdx)) / sizeof(TxEntry)\<close>,
  \<^verbatim>\<open>NUM_LOG_ENTRY = BLOCK_SIZE / sizeof(LogEntry)\<close>, with
  \<^verbatim>\<open>sizeof(BlockIdx) = 4\<close>, \<^verbatim>\<open>sizeof(TxEntry) = 8\<close> and
  \<^verbatim>\<open>sizeof(LogEntry) = 16\<close> (the static assertions of the same file).
\<close>

definition BLOCK_SIZE :: nat where
  "BLOCK_SIZE = 4096"

definition BLOCK_SHIFT :: nat where
  "BLOCK_SHIFT = 12"

definition NUM_TX_ENTRY :: nat where
  "NUM_TX_ENTRY = (BLOCK_SIZE - 2 * 4) div 8"

definition NUM_LOG_ENTRY :: nat where
  "NUM_LOG_ENTRY = BLOCK_SIZE div 16"

section \<open>Bitmap: one 64-bit allocation word\<close>

type_synonym bitmap = "64 word"

definition BITMAP_ALL_USED :: bitmap where
  "BITMAP_ALL_USED = 0xffffffffffffffff"

text \<open>\<^verbatim>\<open>std::countr_zero\<close> on a 64-bit value: the number of consecutive zero bits
  starting at bit 0; 64 for the value 0.\<close>

definition countr_zero :: "bitmap \<Rightarrow> nat" where
  "countr_zero w = length (takeWhile (\<lambda>i. \<not> bit w i) [0..<64])"

text \<open>\<^verbatim>\<open>__atomic_compare_exchange_n(ptr, &expected, desired, ...)\<close> as one atomic step
  on the current content of the word: it stores \<open>desired\<close> and succeeds when the content
  equals \<open>expected\<close>, and otherwise fails, leaves the word alone and hands the content
  back (in \<open>expected\<close>).\<close>

definition compare_exchange :: "64 word \<Rightarrow> 64 word \<Rightarrow> 64 word \<Rightarrow> bool \<times> 64 word" where
  "compare_exchange cur expected desired =
     (if cur = expected then (True, desired) else (False, cur))"

text \<open>
  \<^verbatim>\<open>Bitmap::alloc_one\<close>. The first argument is the interference of the other threads:
  its head is the content of the word at the moment of this iteration's
  compare-and-swap (what another thread stored after our load); when the list is
  exhausted nobody interferes and the word still holds what was loaded. The result is
  the returned \<^verbatim>\<open>int\<close> and the word after the call.
  \<^verbatim>\<open>
  retry:
    uint64_t b = __atomic_load_n(&bitmap, __ATOMIC_ACQUIRE);
    if (b == BITMAP_ALL_USED) return -1;
    uint64_t allocated = (~b) & (b + 1);
    if (!__atomic_compare_exchange_n(&bitmap, &b, b & allocated, true, ...))
      goto retry;
    return std::countr_zero(b);
  \<close>
\<close>

fun alloc_one :: "bitmap list \<Rightarrow> bitmap \<Rightarrow> int \<times> bitmap" where
  "alloc_one [] bitmap =
     (let b = bitmap in
      if b = BITMAP_ALL_USED then (- 1, bitmap)
      else let allocated = NOT b AND (b + 1);
               (ok, bitmap') = compare_exchange bitmap b (b AND allocated)
           in (int (countr_zero b), bitmap'))"
| "alloc_one (cur # env) bitmap =
     (let b = bitmap in
      if b = BITMAP_ALL_USED then (- 1, bitmap)
      else let allocated = NOT b AND (b + 1);
               (ok, bitmap') = compare_exchange cur b (b AND allocated)
           in if ok then (int (countr_zero b), bitmap') else alloc_one env bitmap')"

text \<open>\<^verbatim>\<open>Bitmap::alloc_all\<close>: \<^verbatim>\<open>0\<close> and the all-ones word when the word was zero,
  \<^verbatim>\<open>-1\<close> and the word unchanged otherwise.\<close>

definition alloc_all :: "bitmap \<Rightarrow> int \<times> bitmap" where
  "alloc_all bitmap =
     (if bitmap \<noteq> 0 then (- 1, bitmap)
      else case compare_exchange bitmap 0 BITMAP_ALL_USED of
             (True, bitmap') \<Rightarrow> (0, bitmap')
           | (False, bitmap') \<Rightarrow> (- 1, bitmap'))"

text \<open>
  \<^verbatim>\<open>void set_allocated(uint32_t idx) { bitmap |= (1 << idx); }\<close>
  The literal \<^verbatim>\<open>1\<close> is an \<^verbatim>\<open>int\<close>, so the shift is a 32-bit signed shift: it is
  undefined for \<open>idx \<ge> 32\<close> (\<open>None\<close> here), and its \<^verbatim>\<open>int\<close> result is sign-extended to
  64 bits before the \<^verbatim>\<open>|=\<close>.
\<close>

definition set_allocated :: "bitmap \<Rightarrow> 32 word \<Rightarrow> bitmap option" where
  "set_allocated bitmap idx =
     (if unat idx < 32
      then Some (bitmap OR scast (push_bit (unat idx) (1 :: 32 word)))
      else None)"

section \<open>TxLogBlock: one block of the transaction log\<close>

text \<open>\<^verbatim>\<open>class TxLogBlock { BlockIdx prev; BlockIdx next; TxEntry tx_entries[NUM_TX_ENTRY]; }\<close>;
  a \<^verbatim>\<open>TxEntry\<close> is one 64-bit word.\<close>

record TxLogBlock =
  prev :: "32 word"
  "next" :: "32 word"
  tx_entries :: "64 word list"

definition wf_TxLogBlock :: "TxLogBlock \<Rightarrow> bool" where
  "wf_TxLogBlock blk = (length (tx_entries blk) = NUM_TX_ENTRY)"

text \<open>
  \<^verbatim>\<open>TxLogBlock::try_commit\<close>, run by one thread with no other thread writing the block
  (the compare-and-swap of a slot just loaded as zero then succeeds; were it to fail,
  the loop goes on to the next slot, as the source does).
  \<^verbatim>\<open>
  for (auto idx = hint_tail; idx < NUM_LOG_ENTRY; ++idx) {
    uint64_t expected = 0;
    if (__atomic_load_n(&tx_entries[idx].entry, __ATOMIC_ACQUIRE)) continue;
    if (__atomic_compare_exchange_n(&tx_entries[idx].entry, &expected,
                                    commit_entry.entry, false, ...))
      return idx;
  }
  return -1;
  \<close>
  The result is the returned \<^verbatim>\<open>int\<close> and the slots after the call.
\<close>

function try_commit_loop :: "64 word list \<Rightarrow> 64 word \<Rightarrow> nat \<Rightarrow> int \<times> 64 word list" where
  "try_commit_loop entries commit_entry idx =
     (if idx < NUM_LOG_ENTRY then
        if entries ! idx \<noteq> 0 then try_commit_loop entries commit_entry (idx + 1)
        else case compare_exchange (entries ! idx) 0 commit_entry of
               (True, v) \<Rightarrow> (int idx, entries[idx := v])
             | (False, v) \<Rightarrow> try_commit_loop entries commit_entry (idx + 1)
      else (- 1, entries))"
  by pat_completeness auto
termination
  by (relation "measure (\<lambda>(entries, commit_entry, idx). NUM_LOG_ENTRY - idx)") auto

declare try_commit_loop.simps [simp del]

definition try_commit :: "TxLogBlock \<Rightarrow> 64 word \<Rightarrow> 32 word \<Rightarrow> int \<times> TxLogBlock" where
  "try_commit blk commit_entry hint_tail =
     (case try_commit_loop (tx_entries blk) commit_entry (unat hint_tail) of
        (r, entries') \<Rightarrow> (r, blk\<lparr>tx_entries := entries'\<rparr>))"

section \<open>Allocator: the per-thread free list over the shared bitmap\<close>

text \<open>What ends a call early: a failed \<^verbatim>\<open>assert\<close>, the three \<^verbatim>\<open>std::runtime_error\<close>s
  of \<^verbatim>\<open>MemTable::init\<close>, the \<^verbatim>\<open>std::length_error\<close> of a \<^verbatim>\<open>vector::resize\<close> beyond
  \<^verbatim>\<open>max_size()\<close>, and an access outside a vector (undefined in the source).\<close>

datatype error =
  AssertionFailed | InvalidLayout | FailToFtruncate | FailToMmap | LengthError | OutOfBounds

text \<open>The capacity of one bitmap word, \<^verbatim>\<open>BITMAP_CAPACITY\<close> (const.h, not among the
  sources at hand): a bitmap word is 64 bits and covers 64 logical blocks.\<close>

definition BITMAP_CAPACITY :: nat where
  "BITMAP_CAPACITY = 64"

text \<open>\<^verbatim>\<open>std::vector<std::pair<uint32_t, LogicalBlockIdx>> free_list\<close>: pairs
  \<open>(count, start_lidx)\<close>, compared lexicographically as \<^verbatim>\<open>std::pair\<close> is.\<close>

type_synonym free_entry = "32 word \<times> 32 word"

record Allocator =
  recent_bitmap_idx :: int
  free_list :: "free_entry list"

text \<open>\<^verbatim>\<open>std::lower_bound(first, last, value)\<close>, as the standard specifies its result:
  the furthermost position such that every element before it is less than \<open>value\<close>
  (the length of the list stands for \<^verbatim>\<open>end()\<close>).\<close>

definition lower_bound :: "free_entry list \<Rightarrow> free_entry \<Rightarrow> nat" where
  "lower_bound xs v = length (takeWhile (\<lambda>x. x < v) xs)"

text \<open>\<^verbatim>\<open>free_list.erase(it)\<close> and \<^verbatim>\<open>std::sort(free_list.begin(), it + 1)\<close>. The order
  on the pairs is total, so the sorted arrangement of a range is unique and \<open>sort\<close>
  computes what \<^verbatim>\<open>std::sort\<close> does.\<close>

definition erase :: "'a list \<Rightarrow> nat \<Rightarrow> 'a list" where
  "erase xs i = take i xs @ drop (Suc i) xs"

definition sort_prefix :: "free_entry list \<Rightarrow> nat \<Rightarrow> free_entry list" where
  "sort_prefix xs k = sort (take k xs) @ drop k xs"

text \<open>
  Modelled from the spec: \<^verbatim>\<open>Bitmap::alloc_batch(bitmap, NUM_BITMAP, hint)\<close>, which
  \<^verbatim>\<open>Allocator::alloc\<close> calls and which is not among the sources at hand. "The batch
  allocator atomically claims a full 64-block run and returns its first lidx", searching
  from the hint, the way \<^verbatim>\<open>BitmapBlock::alloc_batch\<close> of
  \<^verbatim>\<open>src/tools/from_ulayfs.cpp\<close> does:
  \<^verbatim>\<open>
  for (int idx = (hint >> 6); idx < NUM_BITMAP; ++idx) {
    ret = bitmaps[idx].alloc_all();
    if (ret < 0) continue;
    return (idx << 6);
  }
  return -1;
  \<close>
\<close>

function alloc_batch_loop :: "bitmap list \<Rightarrow> nat \<Rightarrow> nat \<Rightarrow> int \<times> bitmap list" where
  "alloc_batch_loop bitmaps num idx =
     (if idx < num then
        case alloc_all (bitmaps ! idx) of
          (ret, b') \<Rightarrow>
            if ret < 0 then alloc_batch_loop bitmaps num (idx + 1)
            else (int (push_bit 6 idx), bitmaps[idx := b'])
      else (- 1, bitmaps))"
  by pat_completeness auto
termination
  by (relation "measure (\<lambda>(bitmaps, num, idx). num - idx)") auto

declare alloc_batch_loop.simps [simp del]

definition alloc_batch :: "bitmap list \<Rightarrow> nat \<Rightarrow> int \<Rightarrow> int \<times> bitmap list" where
  "alloc_batch bitmaps num hint = alloc_batch_loop bitmaps num (nat (drop_bit 6 hint))"

text \<open>
  \<^verbatim>\<open>Allocator::alloc\<close> (\<^verbatim>\<open>src/src/alloc.cpp\<close>). The shared bitmap is passed in and
  returned; \<^verbatim>\<open>NUM_BITMAP\<close> is the number of its words. A failed \<^verbatim>\<open>assert\<close> is the
  error \<open>AssertionFailed\<close>. The part after the free-list search:
  \<^verbatim>\<open>
  recent_bitmap_idx = Bitmap::alloc_batch(bitmap, NUM_BITMAP, recent_bitmap_idx);
  assert(recent_bitmap_idx >= 0);
  LogicalBlockIdx allocated_idx = recent_bitmap_idx;
  if (num_blocks < BITMAP_CAPACITY) {
    free_list.emplace_back(BITMAP_CAPACITY - num_blocks, allocated_idx + num_blocks);
    std::sort(free_list.begin(), free_list.end());
  }
  recent_bitmap_idx++;
  return allocated_idx;
  \<close>
\<close>

definition alloc_from_bitmap ::
  "Allocator \<Rightarrow> bitmap list \<Rightarrow> 32 word \<Rightarrow> error + (32 word \<times> Allocator \<times> bitmap list)" where
  "alloc_from_bitmap a bitmaps num_blocks =
     (case alloc_batch bitmaps (length bitmaps) (recent_bitmap_idx a) of
        (r, bitmaps') \<Rightarrow>
          if \<not> 0 \<le> r then Inl AssertionFailed
          else
            let allocated_idx = (word_of_int r :: 32 word);
                fl = (if unat num_blocks < BITMAP_CAPACITY
                      then sort (free_list a @
                             [(word_of_nat BITMAP_CAPACITY - num_blocks, allocated_idx + num_blocks)])
                      else free_list a)
            in Inr (allocated_idx, a\<lparr>recent_bitmap_idx := r + 1, free_list := fl\<rparr>, bitmaps'))"

text \<open>
  The free-list search of \<^verbatim>\<open>Allocator::alloc\<close>:
  \<^verbatim>\<open>
  assert(num_blocks <= BITMAP_CAPACITY);
  auto it = std::lower_bound(free_list.begin(), free_list.end(),
                             std::pair<uint32_t, LogicalBlockIdx>(num_blocks, 0));
  if (it != free_list.end()) {
    auto idx = it->second;
    assert(idx != 0);
    if (it->first == num_blocks) { free_list.erase(it); return idx; }
    if (it->first > num_blocks) {
      it->first -= num_blocks;
      it->second += num_blocks;
      std::sort(free_list.begin(), it + 1);
      return idx;
    }
  }
  \<close>
\<close>

definition alloc ::
  "Allocator \<Rightarrow> bitmap list \<Rightarrow> 32 word \<Rightarrow> error + (32 word \<times> Allocator \<times> bitmap list)" where
  "alloc a bitmaps num_blocks =
     (if \<not> unat num_blocks \<le> BITMAP_CAPACITY then Inl AssertionFailed
      else
        let fl = free_list a;
            it = lower_bound fl (num_blocks, 0)
        in if it \<noteq> length fl then
             (let idx = snd (fl ! it) in
              if idx = 0 then Inl AssertionFailed
              else if fst (fl ! it) = num_blocks then
                Inr (idx, a\<lparr>free_list := erase fl it\<rparr>, bitmaps)
              else if fst (fl ! it) > num_blocks then
                Inr (idx,
                     a\<lparr>free_list :=
                         sort_prefix
                           (fl[it := (fst (fl ! it) - num_blocks, snd (fl ! it) + num_blocks)])
                           (it + 1)\<rparr>,
                     bitmaps)
              else alloc_from_bitmap a bitmaps num_blocks)
           else alloc_from_bitmap a bitmaps num_blocks)"

text \<open>
  \<^verbatim>\<open>
  void Allocator::free(LogicalBlockIdx block_idx, uint32_t num_blocks) {
    if (block_idx == 0) return;
    free_list.emplace_back(num_blocks, block_idx);
    std::sort(free_list.begin(), free_list.end());
  }
  \<close>
\<close>

definition free :: "Allocator \<Rightarrow> 32 word \<Rightarrow> 32 word \<Rightarrow> Allocator" where
  "free a block_idx num_blocks =
     (if block_idx = 0 then a
      else a\<lparr>free_list := sort (free_list a @ [(num_blocks, block_idx)])\<rparr>)"

text \<open>
  \<^verbatim>\<open>Allocator::free(const LogicalBlockIdx recycle_image[], uint32_t image_size)\<close>: the
  loop over \<^verbatim>\<open>curr\<close> (\<open>cur\<close> below), with the locals \<^verbatim>\<open>group_begin\<close> and \<^verbatim>\<open>group_begin_lidx\<close> and
  the free list as its state.
  \<^verbatim>\<open>
  for (uint32_t curr = group_begin; curr < image_size; ++curr) {
    if (group_begin_lidx == 0) {
      if (recycle_image[curr] == 0) continue;
      group_begin = curr;
      group_begin_lidx = recycle_image[curr];
    } else {
      if (recycle_image[curr] == group_begin_lidx + (curr - group_begin)) continue;
      free_list.emplace_back(curr - group_begin, group_begin_lidx);
      group_begin_lidx = recycle_image[curr];
      if (group_begin_lidx != 0) group_begin = curr;
    }
  }
  \<close>
\<close>

function free_image_loop ::
  "32 word list \<Rightarrow> nat \<Rightarrow> nat \<Rightarrow> nat \<Rightarrow> 32 word \<Rightarrow> free_entry list
     \<Rightarrow> nat \<times> 32 word \<times> free_entry list" where
  "free_image_loop recycle_image image_size cur group_begin group_begin_lidx fl =
     (if cur < image_size then
        if group_begin_lidx = 0 then
          if recycle_image ! cur = 0
          then free_image_loop recycle_image image_size (cur + 1) group_begin group_begin_lidx fl
          else free_image_loop recycle_image image_size (cur + 1) cur (recycle_image ! cur) fl
        else
          if recycle_image ! cur = group_begin_lidx + word_of_nat (cur - group_begin)
          then free_image_loop recycle_image image_size (cur + 1) group_begin group_begin_lidx fl
          else
            let fl' = fl @ [(word_of_nat (cur - group_begin), group_begin_lidx)];
                group_begin_lidx' = recycle_image ! cur
            in free_image_loop recycle_image image_size (cur + 1)
                 (if group_begin_lidx' \<noteq> 0 then cur else group_begin) group_begin_lidx' fl'
      else (group_begin, group_begin_lidx, fl))"
  by pat_completeness auto
termination
  by (relation "measure (\<lambda>(recycle_image, image_size, cur, gb, gbl, fl). image_size - cur)") auto

declare free_image_loop.simps [simp del]

text \<open>The whole function; the array is the list \<open>recycle_image\<close> and \<^verbatim>\<open>image_size\<close> its
  length.
  \<^verbatim>\<open>
  if (image_size == 0) return;
  uint32_t group_begin = 0;
  LogicalBlockIdx group_begin_lidx = 0;
  for ...
  if (group_begin_lidx != 0)
    free_list.emplace_back(image_size - group_begin, group_begin_lidx);
  std::sort(free_list.begin(), free_list.end());
  \<close>
\<close>

definition free_image :: "Allocator \<Rightarrow> 32 word list \<Rightarrow> Allocator" where
  "free_image a recycle_image =
     (let image_size = length recycle_image in
      if image_size = 0 then a
      else
        case free_image_loop recycle_image image_size 0 0 0 (free_list a) of
          (group_begin, group_begin_lidx, fl) \<Rightarrow>
            let fl' = (if group_begin_lidx \<noteq> 0
                       then fl @ [(word_of_nat (image_size - group_begin), group_begin_lidx)]
                       else fl)
            in a\<lparr>free_list := sort fl'\<rparr>)"

text \<open>The operations that modify the free list, and a thread running a sequence of
  them on its allocator; a failed assertion ends the run.\<close>

datatype alloc_op = Alloc "32 word" | Free "32 word" "32 word" | FreeImage "32 word list"

fun alloc_step :: "Allocator \<times> bitmap list \<Rightarrow> alloc_op \<Rightarrow> error + (Allocator \<times> bitmap list)" where
  "alloc_step (a, bitmaps) (Alloc n) =
     (case alloc a bitmaps n of
        Inl e \<Rightarrow> Inl e
      | Inr (lidx, a', bitmaps') \<Rightarrow> Inr (a', bitmaps'))"
| "alloc_step (a, bitmaps) (Free lidx n) = Inr (free a lidx n, bitmaps)"
| "alloc_step (a, bitmaps) (FreeImage img) = Inr (free_image a img, bitmaps)"

fun alloc_run :: "Allocator \<times> bitmap list \<Rightarrow> alloc_op list \<Rightarrow> error + (Allocator \<times> bitmap list)" where
  "alloc_run s [] = Inr s"
| "alloc_run s (x # xs) =
     (case alloc_step s x of Inl e \<Rightarrow> Inl e | Inr s' \<Rightarrow> alloc_run s' xs)"

text \<open>A new allocator: the cursor at the start of the bitmap and an empty free list.\<close>

definition new_Allocator :: Allocator where
  "new_Allocator = \<lparr>recent_bitmap_idx = 0, free_list = []\<rparr>"

section \<open>MemTable: mapping the backing file\<close>

text \<open>
  \<^verbatim>\<open>LayoutParams\<close> (config.h, not among the sources at hand) is a parameter:
  \<^verbatim>\<open>grow_unit_shift\<close>, \<^verbatim>\<open>prealloc_size\<close>, and \<^verbatim>\<open>grow_unit_size = 1 << grow_unit_shift\<close>.
\<close>

record LayoutParams =
  grow_unit_shift :: nat
  prealloc_size :: int

definition grow_unit_size :: "LayoutParams \<Rightarrow> int" where
  "grow_unit_size p = push_bit (grow_unit_shift p) 1"

definition NUM_BLOCKS_PER_GROW :: "LayoutParams \<Rightarrow> 32 word" where
  "NUM_BLOCKS_PER_GROW p = word_of_int (grow_unit_size p div int BLOCK_SIZE)"

text \<open>Modelled from the spec: the macro \<^verbatim>\<open>IS_ALIGNED(x, a)\<close> (utils.h, not among the
  sources at hand), "block-aligned", "grow-unit aligned": \<open>x\<close> is a multiple of \<open>a\<close>.\<close>

definition IS_ALIGNED :: "int \<Rightarrow> int \<Rightarrow> bool" where
  "IS_ALIGNED x a = (x mod a = 0)"

text \<open>\<^verbatim>\<open>off_t\<close> is a signed 64-bit integer: the value of an arithmetic result in it.\<close>

definition off_t :: "int \<Rightarrow> int" where
  "off_t x = signed_take_bit 63 x"

text \<open>The host: whether \<^verbatim>\<open>posix::ftruncate(fd, length)\<close> returns 0, and whether
  \<^verbatim>\<open>posix::mmap(nullptr, length, ..., fd, offset)\<close> returns an address. The calls a
  function issues are recorded in order.\<close>

record host =
  ftruncate_ret :: "int \<Rightarrow> int \<Rightarrow> int"
  mmap_ok :: "int \<Rightarrow> int \<Rightarrow> int \<Rightarrow> bool"

datatype syscall = Ftruncate int int | Mmap int int int

text \<open>\<^verbatim>\<open>class MemTable\<close>: \<^verbatim>\<open>meta->num_blocks\<close> of the mapped meta block is the field
  \<open>meta_num_blocks\<close>; a \<^verbatim>\<open>pmem::Block*\<close> of the table is the number of blocks between it
  and the start of the mapping.\<close>

record MemTable =
  fd :: int
  meta_num_blocks :: "32 word"
  num_blocks_local_copy :: "32 word"
  mtable :: "32 word \<rightharpoonup> nat"

text \<open>\<^verbatim>\<open>table.emplace(key, value)\<close> keeps the value of a key already present.\<close>

definition emplace :: "('k \<rightharpoonup> 'v) \<Rightarrow> 'k \<Rightarrow> 'v \<Rightarrow> ('k \<rightharpoonup> 'v)" where
  "emplace m k v = (if k \<in> dom m then m else m(k \<mapsto> v))"

text \<open>
  \<^verbatim>\<open>
  for (pmem::LogicalBlockIdx idx = 0; idx < num_blocks; idx += NUM_BLOCKS_PER_GROW)
    table.emplace(idx, blocks + idx);
  \<close>
  The index is a \<^verbatim>\<open>uint32_t\<close> and wraps around; \<open>None\<close> when the loop never ends.
\<close>

definition init_table ::
  "LayoutParams \<Rightarrow> 32 word \<Rightarrow> (32 word \<rightharpoonup> nat) \<Rightarrow> (32 word \<rightharpoonup> nat) option" where
  "init_table p num_blocks t =
     map_option snd
       (while_option (\<lambda>(idx, t). idx < num_blocks)
          (\<lambda>(idx, t). (idx + NUM_BLOCKS_PER_GROW p, emplace t idx (unat idx)))
          (0, t))"

text \<open>
  \<^verbatim>\<open>MemTable::init(int fd, off_t file_size)\<close> (\<^verbatim>\<open>src/unnamed/part_000\<close>): the system
  calls it issues, and its outcome: an exception, or the table it leaves (the returned
  pointer is the start of the mapping), or \<open>None\<close> when it does not return.
  \<^verbatim>\<open>
  if (!IS_ALIGNED(file_size, BLOCK_SIZE))
    throw std::runtime_error("Invalid layout: non-block-aligned file size!");
  if (file_size == 0 || !IS_ALIGNED(file_size, LayoutParams::grow_unit_size)) {
    file_size = file_size == 0
                    ? LayoutParams::prealloc_size
                    : ((file_size >> LayoutParams::grow_unit_shift) + 1)
                          << LayoutParams::grow_unit_shift;
    int ret = posix::ftruncate(fd, file_size);
    if (ret) throw std::runtime_error("Fail to ftruncate!");
  }
  void* addr = posix::mmap(nullptr, file_size, PROT_READ | PROT_WRITE, mmap_flags, fd, 0);
  if (addr == (void*)-1) throw std::runtime_error("Fail to mmap!");
  uint32_t num_blocks = file_size >> BLOCK_SHIFT;
  for ...
  this->meta->set_num_blocks_no_lock(num_blocks);
  this->num_blocks_local_copy = num_blocks;
  \<close>
\<close>

definition init ::
  "LayoutParams \<Rightarrow> host \<Rightarrow> MemTable \<Rightarrow> int \<Rightarrow> int \<Rightarrow> syscall list \<times> (error + MemTable) option" where
  "init p h mt fd' file_size0 =
     (if \<not> IS_ALIGNED file_size0 (int BLOCK_SIZE) then ([], Some (Inl InvalidLayout))
      else
        let grow = (file_size0 = 0 \<or> \<not> IS_ALIGNED file_size0 (grow_unit_size p));
            file_size =
              (if grow then
                 (if file_size0 = 0 then prealloc_size p
                  else off_t (push_bit (grow_unit_shift p)
                                (off_t (drop_bit (grow_unit_shift p) file_size0 + 1))))
               else file_size0);
            calls = (if grow then [Ftruncate fd' file_size] else [])
        in if grow \<and> ftruncate_ret h fd' file_size \<noteq> 0 then (calls, Some (Inl FailToFtruncate))
           else if \<not> mmap_ok h file_size fd' 0
                then (calls @ [Mmap file_size fd' 0], Some (Inl FailToMmap))
           else
             let num_blocks = (word_of_int (drop_bit BLOCK_SHIFT file_size) :: 32 word)
             in (calls @ [Mmap file_size fd' 0],
                 map_option
                   (\<lambda>t. Inr (mt\<lparr>fd := fd', meta_num_blocks := num_blocks,
                                 num_blocks_local_copy := num_blocks, mtable := t\<rparr>))
                   (init_table p num_blocks (mtable mt))))"

text \<open>\<^verbatim>\<open>MemTable() : fd(-1), num_blocks_local_copy(0), table() {}\<close>\<close>

definition new_MemTable :: MemTable where
  "new_MemTable =
     \<lparr>fd = - 1, meta_num_blocks = 0, num_blocks_local_copy = 0, mtable = Map.empty\<rparr>"

text \<open>A host on which every \<^verbatim>\<open>ftruncate\<close> and every \<^verbatim>\<open>mmap\<close> succeeds.\<close>

definition host_all_ok :: host where
  "host_all_ok = \<lparr>ftruncate_ret = (\<lambda>fd len. 0), mmap_ok = (\<lambda>len fd off. True)\<rparr>"

section \<open>BlkTable: the virtual-to-logical index\<close>

text \<open>\<^verbatim>\<open>std::countl_zero\<close> on a \<^verbatim>\<open>uint32_t\<close>: the number of consecutive zero bits from
  bit 31 down; 32 for the value 0.\<close>

definition countl_zero :: "32 word \<Rightarrow> nat" where
  "countl_zero w = length (takeWhile (\<lambda>i. \<not> bit w i) (rev [0..<32]))"

text \<open>
  \<^verbatim>\<open>
  void BlkTable::resize_to_fit(VirtualBlockIdx idx) {
    if (table.size() > idx) return;
    int next_pow2 = 1 << (sizeof(idx) * 8 - std::countl_zero(idx));
    table.resize(next_pow2);
  }
  \<close>
  The new elements of \<^verbatim>\<open>resize\<close> are zero. For \<open>idx \<ge> 2 ^ 30\<close> the \<^verbatim>\<open>int\<close> is
  \<open>- 2 ^ 31\<close>, a size beyond \<^verbatim>\<open>max_size()\<close>, or the shift is undefined: \<open>LengthError\<close>.
\<close>

definition resize :: "32 word list \<Rightarrow> nat \<Rightarrow> 32 word list" where
  "resize t n = take n t @ replicate (n - length t) 0"

definition resize_to_fit :: "32 word list \<Rightarrow> 32 word \<Rightarrow> error + 32 word list" where
  "resize_to_fit t idx =
     (if length t > unat idx then Inr t
      else let sh = 32 - countl_zero idx
           in if sh < 31 then Inr (resize t (2 ^ sh)) else Inl LengthError)"

text \<open>
  The transaction a commit entry stands for: \<^verbatim>\<open>begin_virtual_idx\<close>,
  \<^verbatim>\<open>begin_logical_idx\<close> and \<^verbatim>\<open>num_blocks\<close> as \<^verbatim>\<open>BlkTable::apply_tx\<close> reads them, and
  the \<^verbatim>\<open>last_remaining\<close> that \<^verbatim>\<open>File::overwrite\<close> hands to \<^verbatim>\<open>write_log_entry\<close>.
\<close>

record LogEntry =
  begin_virtual_idx :: "32 word"
  begin_logical_idx :: "32 word"
  num_blocks :: "32 word"
  last_remaining :: "16 word"

text \<open>
  \<^verbatim>\<open>BlkTable::apply_tx\<close> for a transaction with one logical run
  (\<^verbatim>\<open>src/src/btable.cpp\<close>), without the rebuilding of the bitmap that \<^verbatim>\<open>init_bitmap\<close>
  asks for at open time:
  \<^verbatim>\<open>
  VirtualBlockIdx end_vidx = begin_vidx + num_blocks;
  resize_to_fit(end_vidx);
  for (uint32_t i = 0; i < num_blocks; ++i)
    table[begin_vidx + i] = begin_lidx + i;
  \<close>
  A store outside the vector is \<open>OutOfBounds\<close>.
\<close>

function apply_tx_loop ::
  "32 word list \<Rightarrow> 32 word \<Rightarrow> 32 word \<Rightarrow> nat \<Rightarrow> nat \<Rightarrow> error + 32 word list" where
  "apply_tx_loop t begin_vidx begin_lidx n i =
     (if i < n then
        let k = unat (begin_vidx + word_of_nat i)
        in if k < length t
           then apply_tx_loop (t[k := begin_lidx + word_of_nat i]) begin_vidx begin_lidx n (i + 1)
           else Inl OutOfBounds
      else Inr t)"
  by pat_completeness auto
termination
  by (relation "measure (\<lambda>(t, begin_vidx, begin_lidx, n, i). n - i)") auto

declare apply_tx_loop.simps [simp del]

definition apply_tx :: "32 word list \<Rightarrow> LogEntry \<Rightarrow> error + 32 word list" where
  "apply_tx t e =
     (let end_vidx = begin_virtual_idx e + num_blocks e
      in case resize_to_fit t end_vidx of
           Inl err \<Rightarrow> Inl err
         | Inr t' \<Rightarrow>
             apply_tx_loop t' (begin_virtual_idx e) (begin_logical_idx e) (unat (num_blocks e)) 0)"

text \<open>Modelled from the spec: \<^verbatim>\<open>BlkTable::get\<close> (btable.h, not among the sources at
  hand), the lookup \<^verbatim>\<open>table[VirtualBlockIdx] \<rightarrow> LogicalBlockIdx\<close>; an index the table
  does not reach is unmapped, which is the value 0.\<close>

definition blk_table_get :: "32 word list \<Rightarrow> 32 word \<Rightarrow> 32 word" where
  "blk_table_get t vidx = (if unat vidx < length t then t ! unat vidx else 0)"

section \<open>\<^verbatim>\<open>BlkTable::update\<close>: the replay of the transaction log\<close>



























section \<open>File: the write and read paths\<close>

type_synonym byte = "8 word"

type_synonym memory = "nat \<Rightarrow> byte"

text \<open>
  The state of an open file. \<open>pmem\<close> is the mapped memory as loads and stores see it, a
  byte per address, and \<open>durable\<close> is what has reached persistent memory. \<open>block_addr\<close>
  is the memory table as the file uses it: the address that \<^verbatim>\<open>mem_table.get_addr\<close>
  returns for a logical block, which is stable for the lifetime of the file (the
  mapping of grow units on demand, with its system calls, is not part of this state).
  The transaction log is the list \<open>tx_log\<close> of committed entries in commit order, each
  the index of its log entry in \<open>log_entries\<close>; \<open>tail_tx_idx\<close> is the cursor of the block
  table, the number of log entries it has replayed.
\<close>

record File =
  pmem :: memory
  durable :: memory
  block_addr :: "32 word \<Rightarrow> nat"
  table :: "32 word list"
  tail_tx_idx :: nat
  log_entries :: "LogEntry list"
  tx_log :: "nat list"
  allocator :: Allocator
  bitmap :: "bitmap list"

definition get_addr :: "File \<Rightarrow> 32 word \<Rightarrow> nat" where
  "get_addr f lidx = block_addr f lidx"

text \<open>\<^verbatim>\<open>memcpy(dst, src, n)\<close>, the source given as the bytes \<open>src 0, src 1, ...\<close>; and
  \<^verbatim>\<open>pmem::persist_fenced(dst, n)\<close>, which makes the \<open>n\<close> bytes at \<open>dst\<close> durable before
  any later store.\<close>

definition memcpy :: "memory \<Rightarrow> nat \<Rightarrow> (nat \<Rightarrow> byte) \<Rightarrow> nat \<Rightarrow> memory" where
  "memcpy m dst src n = (\<lambda>a. if dst \<le> a \<and> a < dst + n then src (a - dst) else m a)"

definition persist_fenced :: "memory \<Rightarrow> memory \<Rightarrow> nat \<Rightarrow> nat \<Rightarrow> memory" where
  "persist_fenced m d dst n = (\<lambda>a. if dst \<le> a \<and> a < dst + n then m a else d a)"

text \<open>Modelled from the spec: the macros \<^verbatim>\<open>ALIGN_DOWN(x, a)\<close> and \<^verbatim>\<open>ALIGN_UP(x, a)\<close>
  (utils.h, not among the sources at hand) round a 64-bit \<open>x\<close> down and up to a multiple
  of the power of two \<open>a\<close>.\<close>

definition ALIGN_DOWN :: "64 word \<Rightarrow> 64 word \<Rightarrow> 64 word" where
  "ALIGN_DOWN x a = x AND NOT (a - 1)"

definition ALIGN_UP :: "64 word \<Rightarrow> 64 word \<Rightarrow> 64 word" where
  "ALIGN_UP x a = (x + (a - 1)) AND NOT (a - 1)"

text \<open>
  The first lines of \<^verbatim>\<open>File::overwrite\<close> and of \<^verbatim>\<open>File::pread\<close>
  (\<^verbatim>\<open>src/tools/from_ulayfs.cpp\<close>, file.h part), which are the same:
  \<^verbatim>\<open>
  VirtualBlockIdx start_virtual_idx = ALIGN_DOWN(offset, BLOCK_SIZE);
  uint64_t local_offset = offset - start_virtual_idx * BLOCK_SIZE;
  uint32_t num_blocks = ALIGN_UP(count + local_offset, BLOCK_SIZE) >> BLOCK_SHIFT;
  uint16_t last_remaining = num_blocks * BLOCK_SIZE - count - local_offset;
  \<close>
  \<^verbatim>\<open>VirtualBlockIdx\<close> and \<^verbatim>\<open>BLOCK_SIZE\<close> are \<^verbatim>\<open>uint32_t\<close>, so the products are 32-bit.
  The parameter \<^verbatim>\<open>count\<close> is \<open>cnt\<close> here.
\<close>

definition start_virtual_idx_of :: "64 word \<Rightarrow> 32 word" where
  "start_virtual_idx_of offset = ucast (ALIGN_DOWN offset (word_of_nat BLOCK_SIZE))"

definition local_offset_of :: "64 word \<Rightarrow> 64 word" where
  "local_offset_of offset =
     offset - ucast (start_virtual_idx_of offset * word_of_nat BLOCK_SIZE)"

definition num_blocks_of :: "64 word \<Rightarrow> 64 word \<Rightarrow> 32 word" where
  "num_blocks_of cnt offset =
     ucast (drop_bit BLOCK_SHIFT
              (ALIGN_UP (cnt + local_offset_of offset) (word_of_nat BLOCK_SIZE)))"

definition last_remaining_of :: "64 word \<Rightarrow> 64 word \<Rightarrow> 16 word" where
  "last_remaining_of cnt offset =
     ucast ((ucast (num_blocks_of cnt offset * word_of_nat BLOCK_SIZE) :: 64 word)
              - cnt - local_offset_of offset)"

text \<open>
  \<^verbatim>\<open>File::write_data\<close>:
  \<^verbatim>\<open>
  char* dst = mem_table.get_addr(start_logical_idx)->data;
  if (local_offset) {
    auto src_idx = blk_table.get(start_virtual_idx);
    char* src = mem_table.get_addr(src_idx)->data;
    memcpy(dst, src, local_offset);
  }
  memcpy(dst + local_offset, buf, count);
  pmem::persist_fenced(dst, count + local_offset);
  \<close>
\<close>

definition write_data ::
  "File \<Rightarrow> byte list \<Rightarrow> 64 word \<Rightarrow> 64 word \<Rightarrow> 32 word \<Rightarrow> 32 word \<Rightarrow> File" where
  "write_data f buf cnt local_offset start_virtual_idx start_logical_idx =
     (let dst = get_addr f start_logical_idx;
          m1 = (if local_offset \<noteq> 0 then
                  let src_idx = blk_table_get (table f) start_virtual_idx;
                      src = get_addr f src_idx
                  in memcpy (pmem f) dst (\<lambda>i. pmem f (src + i)) (unat local_offset)
                else pmem f);
          m2 = memcpy m1 (dst + unat local_offset) (\<lambda>i. buf ! i) (unat cnt)
      in f\<lparr>pmem := m2,
           durable := persist_fenced m2 (durable f) dst (unat (cnt + local_offset))\<rparr>)"

text \<open>
  Modelled from the spec: the transaction manager of this \<^verbatim>\<open>File\<close> (\<^verbatim>\<open>begin_tx\<close>,
  \<^verbatim>\<open>write_log_entry\<close>, \<^verbatim>\<open>commit_tx\<close>; tx.h is not among the sources at hand). The
  log is append-only; \<^verbatim>\<open>begin_tx\<close> hands out the position of the transaction in it,
  \<^verbatim>\<open>write_log_entry\<close> adds the log entry describing the write and returns its index,
  and the commit is the single store of the commit entry, which makes the transaction
  visible to replay.
\<close>

definition begin_tx :: "File \<Rightarrow> 32 word \<Rightarrow> 32 word \<Rightarrow> nat" where
  "begin_tx f start_virtual_idx n = length (tx_log f)"

definition write_log_entry ::
  "File \<Rightarrow> 32 word \<Rightarrow> 32 word \<Rightarrow> 32 word \<Rightarrow> 16 word \<Rightarrow> nat \<times> File" where
  "write_log_entry f start_virtual_idx start_logical_idx n remaining =
     (length (log_entries f),
      f\<lparr>log_entries := log_entries f @
           [\<lparr>begin_virtual_idx = start_virtual_idx, begin_logical_idx = start_logical_idx,
             num_blocks = n, last_remaining = remaining\<rparr>]\<rparr>)"

definition commit_tx :: "File \<Rightarrow> nat \<Rightarrow> nat \<Rightarrow> File" where
  "commit_tx f tx_begin_idx log_entry_idx = f\<lparr>tx_log := tx_log f @ [log_entry_idx]\<rparr>"

text \<open>
  Modelled from the spec: the replay \<^verbatim>\<open>blk_table.update()\<close> at the end of
  \<^verbatim>\<open>File::overwrite\<close>, which takes no arguments (the block table of this \<^verbatim>\<open>File\<close> is not
  among the sources at hand; \<^verbatim>\<open>BlkTable::update\<close> of \<^verbatim>\<open>src/src/btable.cpp\<close>, which takes
  the cursor of the caller and two flags, is \<open>BlkTable_update\<close> above). "\<^verbatim>\<open>update\<close> is the
  replay routine": from the cursor on, it applies every committed entry of the log and
  advances. An entry of this log is what \<^verbatim>\<open>commit_tx\<close> stores, the index of a log entry
  with one logical run, and \<open>apply_tx\<close> applies it.
\<close>

function update :: "File \<Rightarrow> error + File" where
  "update f =
     (if tail_tx_idx f < length (tx_log f) then
        case apply_tx (table f) (log_entries f ! (tx_log f ! tail_tx_idx f)) of
          Inl err \<Rightarrow> Inl err
        | Inr t \<Rightarrow> update (f\<lparr>table := t, tail_tx_idx := tail_tx_idx f + 1\<rparr>)
      else Inr f)"
  by pat_completeness auto
termination
  by (relation "measure (\<lambda>f. length (tx_log f) - tail_tx_idx f)") auto

declare update.simps [simp del]

text \<open>
  \<^verbatim>\<open>File::overwrite\<close>: the states the file passes through, one after each statement
  that changes it (the allocation, \<^verbatim>\<open>write_data\<close>, \<^verbatim>\<open>write_log_entry\<close>, \<^verbatim>\<open>commit_tx\<close>,
  \<^verbatim>\<open>blk_table.update\<close>), and the outcome, the returned \<^verbatim>\<open>count\<close>.
  \<^verbatim>\<open>
  auto tx_begin_idx = tx_mgr.begin_tx(start_virtual_idx, num_blocks);
  LogicalBlockIdx start_logical_idx = allocator.alloc(num_blocks);
  write_data(buf, count, local_offset, start_virtual_idx, start_logical_idx);
  uint16_t last_remaining = num_blocks * BLOCK_SIZE - count - local_offset;
  auto log_entry_idx = tx_mgr.write_log_entry(
      start_virtual_idx, start_logical_idx, num_blocks, last_remaining);
  tx_mgr.commit_tx(tx_begin_idx, log_entry_idx);
  blk_table.update();
  return static_cast<ssize_t>(count);
  \<close>
\<close>

definition overwrite_states ::
  "File \<Rightarrow> byte list \<Rightarrow> 64 word \<Rightarrow> 64 word \<Rightarrow> File list \<times> (error + 64 word)" where
  "overwrite_states f buf cnt offset =
     (let start_virtual_idx = start_virtual_idx_of offset;
          local_offset = local_offset_of offset;
          n = num_blocks_of cnt offset;
          tx_begin_idx = begin_tx f start_virtual_idx n
      in case alloc (allocator f) (bitmap f) n of
           Inl err \<Rightarrow> ([], Inl err)
         | Inr (start_logical_idx, a, b) \<Rightarrow>
             (let f1 = f\<lparr>allocator := a, bitmap := b\<rparr>;
                  f2 = write_data f1 buf cnt local_offset start_virtual_idx start_logical_idx;
                  remaining = last_remaining_of cnt offset;
                  (log_entry_idx, f3) =
                    write_log_entry f2 start_virtual_idx start_logical_idx n remaining;
                  f4 = commit_tx f3 tx_begin_idx log_entry_idx
              in (case update f4 of
                    Inl err \<Rightarrow> ([f1, f2, f3, f4], Inl err)
                  | Inr f5 \<Rightarrow> ([f1, f2, f3, f4, f5], Inr cnt))))"

definition overwrite :: "File \<Rightarrow> byte list \<Rightarrow> 64 word \<Rightarrow> 64 word \<Rightarrow> error + (File \<times> 64 word)" where
  "overwrite f buf cnt offset =
     (case overwrite_states f buf cnt offset of
        (states, Inl err) \<Rightarrow> Inl err
      | (states, Inr ret) \<Rightarrow> Inr (last states, ret))"

text \<open>
  \<^verbatim>\<open>
  char* get_data_block_ptr(VirtualBlockIdx virtual_block_idx) {
    auto logical_block_idx = blk_table.get(virtual_block_idx);
    assert(logical_block_idx != 0);
    auto block = mem_table.get_addr(logical_block_idx);
    return block->data;
  }
  \<close>
\<close>

definition get_data_block_ptr :: "File \<Rightarrow> 32 word \<Rightarrow> error + nat" where
  "get_data_block_ptr f virtual_block_idx =
     (let logical_block_idx = blk_table_get (table f) virtual_block_idx
      in if logical_block_idx = 0 then Inl AssertionFailed
         else Inr (get_addr f logical_block_idx))"

text \<open>
  The loop of \<^verbatim>\<open>File::pread\<close>; \<open>acc\<close> is what has been copied to \<^verbatim>\<open>buf\<close> so far.
  \<^verbatim>\<open>
  for (int i = 0; i < num_blocks; ++i) {
    size_t num_bytes = BLOCK_SIZE;
    if (i == 0) num_bytes -= local_offset;
    if (i == num_blocks - 1) num_bytes -= last_remaining;
    char* ptr = get_data_block_ptr(start_virtual_idx + i);
    char* src = i == 0 ? ptr + local_offset : ptr;
    memcpy(dst, src, num_bytes);
    dst += num_bytes;
  }
  \<close>
\<close>

function pread_loop ::
  "File \<Rightarrow> 32 word \<Rightarrow> 64 word \<Rightarrow> 16 word \<Rightarrow> 32 word \<Rightarrow> nat \<Rightarrow> byte list
     \<Rightarrow> error + byte list" where
  "pread_loop f start_virtual_idx local_offset remaining n i acc =
     (if i < unat n then
        let num_bytes0 = (word_of_nat BLOCK_SIZE :: 64 word);
            num_bytes1 = (if i = 0 then num_bytes0 - local_offset else num_bytes0);
            num_bytes = (if (word_of_nat i :: 32 word) = n - 1
                         then num_bytes1 - ucast remaining else num_bytes1)
        in case get_data_block_ptr f (start_virtual_idx + word_of_nat i) of
             Inl err \<Rightarrow> Inl err
           | Inr ptr \<Rightarrow>
               let src = (if i = 0 then ptr + unat local_offset else ptr)
               in pread_loop f start_virtual_idx local_offset remaining n (i + 1)
                    (acc @ map (pmem f) [src ..< src + unat num_bytes])
      else Inr acc)"
  by pat_completeness auto
termination
  by (relation "measure (\<lambda>(f, start_virtual_idx, local_offset, remaining, n, i, acc). unat n - i)")
    auto

declare pread_loop.simps [simp del]

text \<open>\<^verbatim>\<open>File::pread\<close>: the bytes copied to \<^verbatim>\<open>buf\<close> and the returned \<^verbatim>\<open>count\<close>.\<close>

definition pread :: "File \<Rightarrow> 64 word \<Rightarrow> 64 word \<Rightarrow> error + (byte list \<times> 64 word)" where
  "pread f cnt offset =
     (case pread_loop f (start_virtual_idx_of offset) (local_offset_of offset)
             (last_remaining_of cnt offset) (num_blocks_of cnt offset) 0 [] of
        Inl err \<Rightarrow> Inl err
      | Inr bytes \<Rightarrow> Inr (bytes, cnt))"

text \<open>
  Modelled from the spec: a file just created by \<^verbatim>\<open>File::open\<close> (file.cpp is not among
  the sources at hand). The file is mapped at address 0, block \<open>lidx\<close> at
  \<open>lidx * BLOCK_SIZE\<close>. The memory is zero but for the signature \<^verbatim>\<open>"ULAYFS"\<close> at the
  start of the meta block; block 0 is marked allocated in the first of the 16 inline
  bitmap words (\<^verbatim>\<open>MetaBlock::init\<close>); nothing is committed.
\<close>

definition new_pmem :: memory where
  "new_pmem = (\<lambda>a. if a < 6 then [0x55, 0x4C, 0x41, 0x59, 0x46, 0x53] ! a else 0)"

definition new_File :: File where
  "new_File =
     \<lparr>pmem = new_pmem, durable = new_pmem,
      block_addr = (\<lambda>lidx. unat lidx * BLOCK_SIZE), table = [], tail_tx_idx = 0,
      log_entries = [], tx_log = [], allocator = new_Allocator,
      bitmap = 1 # replicate 15 0\<rparr>"

text \<open>A sequence of \<^verbatim>\<open>pwrite(buf, count, offset)\<close> calls, each served by
  \<^verbatim>\<open>File::overwrite\<close>, and a \<^verbatim>\<open>pread\<close> after them.\<close>

fun overwrite_all :: "File \<Rightarrow> (byte list \<times> 64 word \<times> 64 word) list \<Rightarrow> error + File" where
  "overwrite_all f [] = Inr f"
| "overwrite_all f ((buf, cnt, offset) # ws) =
     (case overwrite f buf cnt offset of
        Inl err \<Rightarrow> Inl err
      | Inr (f', ret) \<Rightarrow> overwrite_all f' ws)"

definition pread_after ::
  "File \<Rightarrow> (byte list \<times> 64 word \<times> 64 word) list \<Rightarrow> 64 word \<Rightarrow> 64 word
     \<Rightarrow> error + (byte list \<times> 64 word)" where
  "pread_after f ws cnt offset =
     (case overwrite_all f ws of
        Inl err \<Rightarrow> Inl err
      | Inr f' \<Rightarrow> pread f' cnt offset)"

section \<open>The library entry points\<close>

text \<open>
  The process as the shim sees it (\<^verbatim>\<open>src/src/btable.cpp\<close>, lib.cpp part): the table
  \<^verbatim>\<open>files\<close> from file descriptors to \<^verbatim>\<open>File\<close> objects, which \<^verbatim>\<open>open\<close> fills; the files
  of the host, each with its content, its size and the file position of the descriptor;
  and what has been printed.
\<close>

record kernel_file =
  k_content :: memory
  k_size :: nat
  k_pos :: nat

record lib_state =
  files :: "int \<rightharpoonup> File"
  kernel :: "int \<Rightarrow> kernel_file"
  printed :: "(string \<times> nat) list"

text \<open>Modelled from the spec: \<^verbatim>\<open>posix::write\<close> and \<^verbatim>\<open>posix::read\<close> (posix.h, not among
  the sources at hand) are the host's \<^verbatim>\<open>write\<close> and \<^verbatim>\<open>read\<close>, which transfer bytes at the
  file position of the descriptor and advance it; \<^verbatim>\<open>read\<close> stops at the end of the
  file.\<close>

definition posix_write :: "kernel_file \<Rightarrow> byte list \<Rightarrow> nat \<Rightarrow> int \<times> kernel_file" where
  "posix_write k buf n =
     (int n,
      k\<lparr>k_content := memcpy (k_content k) (k_pos k) (\<lambda>i. buf ! i) n,
        k_size := max (k_size k) (k_pos k + n),
        k_pos := k_pos k + n\<rparr>)"

definition posix_read :: "kernel_file \<Rightarrow> nat \<Rightarrow> (int \<times> byte list) \<times> kernel_file" where
  "posix_read k n =
     (let m = min n (k_size k - k_pos k)
      in ((int m, map (k_content k) [k_pos k ..< k_pos k + m]), k\<lparr>k_pos := k_pos k + m\<rparr>))"

text \<open>
  \<^verbatim>\<open>
  ssize_t write(int fd, const void *buf, size_t count) {
    if constexpr (BuildOptions::debug) { printf("write:count:%lu\n", count); }
    return posix::write(fd, buf, count);
  }
  ssize_t read(int fd, void *buf, size_t count) {
    if constexpr (BuildOptions::debug) { printf("read:count:%lu\n", count); }
    return posix::read(fd, buf, count);
  }
  \<close>
  \<^verbatim>\<open>BuildOptions::debug\<close> is the first argument.
\<close>

definition lib_write :: "bool \<Rightarrow> lib_state \<Rightarrow> int \<Rightarrow> byte list \<Rightarrow> 64 word \<Rightarrow> int \<times> lib_state" where
  "lib_write debug st fd' buf cnt =
     (let st1 = (if debug then st\<lparr>printed := printed st @ [(''write:count:'', unat cnt)]\<rparr>
                 else st)
      in case posix_write (kernel st1 fd') buf (unat cnt) of
           (ret, k) \<Rightarrow> (ret, st1\<lparr>kernel := (kernel st1)(fd' := k)\<rparr>))"

definition lib_read ::
  "bool \<Rightarrow> lib_state \<Rightarrow> int \<Rightarrow> 64 word \<Rightarrow> (int \<times> byte list) \<times> lib_state" where
  "lib_read debug st fd' cnt =
     (let st1 = (if debug then st\<lparr>printed := printed st @ [(''read:count:'', unat cnt)]\<rparr>
                 else st)
      in case posix_read (kernel st1 fd') (unat cnt) of
           (ret, k) \<Rightarrow> (ret, st1\<lparr>kernel := (kernel st1)(fd' := k)\<rparr>))"

text \<open>Modelled from the spec: a process that has just created a file through the shim's
  \<^verbatim>\<open>open\<close>, which returned descriptor 3: the \<^verbatim>\<open>File\<close> object is registered in \<^verbatim>\<open>files\<close>,
  the host file holds the new file (one block of it suffices here), the file position
  is 0.\<close>

definition opened_new_file :: lib_state where
  "opened_new_file =
     \<lparr>files = [3 \<mapsto> new_File],
      kernel = (\<lambda>fd. \<lparr>k_content = new_pmem, k_size = BLOCK_SIZE, k_pos = 0\<rparr>),
      printed = []\<rparr>"

section \<open>Properties of the bitmap word\<close>

lemma and_not_self_and: "b AND (NOT b AND c) = (0 :: 64 word)"
  by (simp add: bit_eq_iff bit_simps)

text \<open>With nobody interfering, \<^verbatim>\<open>alloc_one\<close> on a word that is not full stores zero:
  \<^verbatim>\<open>b & allocated\<close> is \<^verbatim>\<open>b & ~b & (b + 1)\<close>.\<close>

lemma alloc_one_stores_zero:
  "b \<noteq> BITMAP_ALL_USED \<Longrightarrow> alloc_one [] b = (int (countr_zero b), 0)"
  by (simp add: compare_exchange_def Let_def and_not_self_and)

lemma alloc_one_full: "alloc_one env BITMAP_ALL_USED = (- 1, BITMAP_ALL_USED)"
  by (cases env) simp_all

text \<open>The part of claim C4 that holds: with nobody interfering, \<open>-1\<close> is returned
  exactly on the full word.\<close>

lemma alloc_one_fails_iff_full: "fst (alloc_one [] b) = - 1 \<longleftrightarrow> b = BITMAP_ALL_USED"
  by (simp add: compare_exchange_def Let_def)

text \<open>
  Claim C4, at the word \<open>1\<close> (bit 0 used, bit 1 the lowest free bit). The claim has
  \<^verbatim>\<open>alloc_one\<close> store \<open>3\<close> and return \<open>1\<close>; the code stores \<open>0\<close>, which frees bit 0, and
  returns \<open>0\<close>, the index of a bit that was in use.
\<close>

theorem alloc_one_at_word_1: "alloc_one [] 1 = (0, 0)"
  by code_simp

text \<open>
  Claim C10, at \<open>idx = 31\<close> on the empty word. The claim has \<^verbatim>\<open>set_allocated\<close> set bit
  31 alone; the code sets the bits 31 to 63, since \<^verbatim>\<open>1 << 31\<close> is the negative \<^verbatim>\<open>int\<close>
  \<open>- 2 ^ 31\<close> and is sign-extended.
\<close>

theorem set_allocated_at_31: "set_allocated 0 31 = Some 0xFFFFFFFF80000000"
  by code_simp

lemma set_allocated_beyond_31: "32 \<le> unat idx \<Longrightarrow> set_allocated b idx = None"
  by (simp add: set_allocated_def)

section \<open>Properties of \<^verbatim>\<open>TxLogBlock::try_commit\<close>\<close>

lemma try_commit_loop_full:
  "fst (try_commit_loop entries e idx) = - 1 \<longleftrightarrow> (\<forall>i. idx \<le> i \<and> i < NUM_LOG_ENTRY \<longrightarrow> entries ! i \<noteq> 0)"
proof (induction entries e idx rule: try_commit_loop.induct)
  case (1 entries e idx)
  show ?case
  proof (cases "idx < NUM_LOG_ENTRY")
    case False
    then show ?thesis by (subst try_commit_loop.simps) auto
  next
    case True
    show ?thesis
    proof (cases "entries ! idx = 0")
      case z: True
      have "fst (try_commit_loop entries e idx) = int idx"
        using True z by (subst try_commit_loop.simps) (simp add: compare_exchange_def)
      then show ?thesis using True z by auto
    next
      case nz: False
      have "try_commit_loop entries e idx = try_commit_loop entries e (idx + 1)"
        using True nz by (subst try_commit_loop.simps) simp
      moreover have "(\<forall>i. idx \<le> i \<and> i < NUM_LOG_ENTRY \<longrightarrow> entries ! i \<noteq> 0) \<longleftrightarrow>
          (\<forall>i. idx + 1 \<le> i \<and> i < NUM_LOG_ENTRY \<longrightarrow> entries ! i \<noteq> 0)"
      proof (intro iffI allI impI)
        fix i assume a: "\<forall>i. idx + 1 \<le> i \<and> i < NUM_LOG_ENTRY \<longrightarrow> entries ! i \<noteq> 0"
          and b: "idx \<le> i \<and> i < NUM_LOG_ENTRY"
        show "entries ! i \<noteq> 0"
        proof (cases "i = idx")
          case True
          then show ?thesis using nz by simp
        next
          case False
          then have "idx + 1 \<le> i" using b by simp
          then show ?thesis using a b by blast
        qed
      qed simp
      ultimately show ?thesis using 1(1)[OF True] nz by simp
    qed
  qed
qed

lemma try_commit_loop_unchanged:
  "fst (try_commit_loop entries e idx) = - 1 \<Longrightarrow> snd (try_commit_loop entries e idx) = entries"
proof (induction entries e idx rule: try_commit_loop.induct)
  case (1 entries e idx)
  show ?case
  proof (cases "idx < NUM_LOG_ENTRY")
    case False
    then show ?thesis by (subst try_commit_loop.simps) auto
  next
    case True
    show ?thesis
    proof (cases "entries ! idx = 0")
      case z: True
      have "fst (try_commit_loop entries e idx) = int idx"
        using True z by (subst try_commit_loop.simps) (simp add: compare_exchange_def)
      then show ?thesis using 1(3) by simp
    next
      case nz: False
      have "try_commit_loop entries e idx = try_commit_loop entries e (idx + 1)"
        using True nz by (subst try_commit_loop.simps) simp
      then show ?thesis using 1(1)[OF True] nz 1(3) by simp
    qed
  qed
qed

text \<open>
  Claim C3, at a block whose first 256 slots are taken and whose other 255 slots are
  free. The claim has \<^verbatim>\<open>try_commit\<close> store the entry into slot 256 and return 256;
  the code scans the slots below \<^verbatim>\<open>NUM_LOG_ENTRY = 256\<close> only, returns \<open>-1\<close> and
  leaves the block as it was.
\<close>

theorem try_commit_half_full_block:
  "wf_TxLogBlock \<lparr>prev = 0, next = 0, tx_entries = replicate 256 1 @ replicate 255 0\<rparr> \<and>
   try_commit \<lparr>prev = 0, next = 0, tx_entries = replicate 256 1 @ replicate 255 0\<rparr> e 0
     = (- 1, \<lparr>prev = 0, next = 0, tx_entries = replicate 256 1 @ replicate 255 0\<rparr>)"
proof -
  have wf: "wf_TxLogBlock
      \<lparr>prev = 0, next = 0, tx_entries = replicate 256 1 @ replicate 255 0\<rparr>"
    by (simp add: wf_TxLogBlock_def NUM_TX_ENTRY_def BLOCK_SIZE_def)
  let ?es = "replicate 256 (1::64 word) @ replicate 255 0"
  have "\<forall>i. 0 \<le> i \<and> i < NUM_LOG_ENTRY \<longrightarrow> ?es ! i \<noteq> 0"
    by (simp add: NUM_LOG_ENTRY_def BLOCK_SIZE_def nth_append)
  then have f: "fst (try_commit_loop ?es e 0) = - 1"
    using try_commit_loop_full [of ?es e 0] by blast
  then have "snd (try_commit_loop ?es e 0) = ?es"
    by (rule try_commit_loop_unchanged)
  with f have "try_commit_loop ?es e 0 = (- 1, ?es)"
    by (metis prod.collapse)
  then show ?thesis using wf by (simp add: try_commit_def)
qed

section \<open>The free list stays sorted\<close>

lemma sorted_erase:
  assumes "sorted xs"
  shows "sorted (erase xs i)"
proof -
  have "sorted (take i xs @ drop i xs)" using assms by simp
  then have a: "sorted (take i xs)" and b: "sorted (drop i xs)"
    and c: "\<forall>x\<in>set (take i xs). \<forall>y\<in>set (drop i xs). x \<le> y"
    unfolding sorted_append by blast+
  have d: "set (drop (Suc i) xs) \<subseteq> set (drop i xs)"
    by (simp add: set_drop_subset_set_drop)
  have "sorted (drop (Suc i) xs)" using assms by (rule sorted_wrt_drop)
  with a c d show ?thesis
    unfolding erase_def sorted_append by blast
qed

lemma lower_bound_le_length: "lower_bound xs v \<le> length xs"
  by (simp add: lower_bound_def length_takeWhile_le)

lemma lower_bound_nth:
  assumes "lower_bound xs v \<noteq> length xs"
  shows "v \<le> xs ! lower_bound xs v"
proof -
  have "lower_bound xs v < length xs"
    using assms lower_bound_le_length [of xs v] by simp
  then have "\<not> xs ! lower_bound xs v < v"
    unfolding lower_bound_def by (rule nth_length_takeWhile)
  then show ?thesis by simp
qed

lemma lower_bound_before:
  assumes "j < lower_bound xs v"
  shows "xs ! j < v"
proof -
  have j: "j < length (takeWhile (\<lambda>x. x < v) xs)"
    using assms by (simp add: lower_bound_def)
  then have "takeWhile (\<lambda>x. x < v) xs ! j \<in> set (takeWhile (\<lambda>x. x < v) xs)"
    by (rule nth_mem)
  then have "takeWhile (\<lambda>x. x < v) xs ! j < v"
    by (rule set_takeWhileD [THEN conjunct2])
  then show ?thesis using j by (simp add: takeWhile_nth)
qed

lemma sorted_sort_prefix_update:
  assumes s: "sorted xs" and i: "i < length xs" and le: "e' \<le> xs ! i"
  shows "sorted (sort_prefix (xs[i := e']) (i + 1))"
proof -
  have t: "take (i + 1) (xs[i := e']) = take i xs @ [e']"
    using i by (simp add: take_Suc_conv_app_nth)
  have d: "drop (i + 1) (xs[i := e']) = drop (Suc i) xs"
    by simp
  have "sorted (take i xs @ drop i xs)" using s by simp
  then have c: "\<forall>x\<in>set (take i xs). \<forall>y\<in>set (drop i xs). x \<le> y"
    unfolding sorted_append by blast
  have sub: "set (drop (Suc i) xs) \<subseteq> set (drop i xs)"
    by (simp add: set_drop_subset_set_drop)
  have h: "\<forall>y\<in>set (drop (Suc i) xs). xs ! i \<le> y"
  proof
    fix y assume "y \<in> set (drop (Suc i) xs)"
    then obtain k where k: "k < length (drop (Suc i) xs)" "y = drop (Suc i) xs ! k"
      by (metis in_set_conv_nth)
    then have "y = xs ! (Suc i + k)" by simp
    moreover have "Suc i + k < length xs" using k by simp
    ultimately show "xs ! i \<le> y" using sorted_nth_mono [OF s, of i "Suc i + k"] by simp
  qed
  have "\<forall>x\<in>set (sort (take i xs @ [e'])). \<forall>y\<in>set (drop (Suc i) xs). x \<le> y"
  proof (intro ballI)
    fix x y assume x: "x \<in> set (sort (take i xs @ [e']))" and y: "y \<in> set (drop (Suc i) xs)"
    from x have "x \<in> set (take i xs) \<or> x = e'" by auto
    then show "x \<le> y"
    proof
      assume "x \<in> set (take i xs)"
      then show ?thesis using c sub y by blast
    next
      assume "x = e'"
      then show ?thesis using le h y by (meson order_trans)
    qed
  qed
  moreover have "sorted (drop (Suc i) xs)" using s by (rule sorted_wrt_drop)
  ultimately show ?thesis
    unfolding sort_prefix_def t d sorted_append by simp
qed

lemma shrink_le:
  fixes c n s :: "32 word"
  assumes "n < c"
  shows "(c - n, s + n) \<le> (c, s)"
proof (cases "n = 0")
  case True
  then show ?thesis by simp
next
  case False
  then have "\<not> c \<le> c - n" using assms
    by (simp add: sub_wrap not_less less_imp_le)
  then have "c - n < c" by simp
  then show ?thesis by (simp add: less_eq_prod_def)
qed

lemma sorted_alloc_from_bitmap:
  assumes "sorted (free_list a)" and "alloc_from_bitmap a bitmaps n = Inr (lidx, a', bitmaps')"
  shows "sorted (free_list a')"
  using assms unfolding alloc_from_bitmap_def
  by (auto simp: Let_def split: prod.splits if_splits)

lemma sorted_alloc:
  assumes s: "sorted (free_list a)" and r: "alloc a bitmaps n = Inr (lidx, a', bitmaps')"
  shows "sorted (free_list a')"
proof -
  let ?fl = "free_list a"
  let ?it = "lower_bound ?fl (n, 0)"
  show ?thesis
  proof (cases "?it \<noteq> length ?fl \<and> snd (?fl ! ?it) \<noteq> 0 \<and> n \<le> fst (?fl ! ?it)")
    case False
    then have "alloc_from_bitmap a bitmaps n = Inr (lidx, a', bitmaps')"
      using r unfolding alloc_def by (auto simp: Let_def split: if_splits)
    with s show ?thesis by (rule sorted_alloc_from_bitmap)
  next
    case True
    then have lt: "?it < length ?fl"
      using lower_bound_le_length [of ?fl "(n, 0)"] by simp
    show ?thesis
    proof (cases "fst (?fl ! ?it) = n")
      case eq: True
      then have "free_list a' = erase ?fl ?it"
        using r True unfolding alloc_def by (auto simp: Let_def split: if_splits)
      then show ?thesis using s by (simp add: sorted_erase)
    next
      case neq: False
      then have gt: "n < fst (?fl ! ?it)" using True by (simp add: order.strict_iff_order)
      then have "free_list a' =
          sort_prefix (?fl[?it := (fst (?fl ! ?it) - n, snd (?fl ! ?it) + n)]) (?it + 1)"
        using r True neq unfolding alloc_def by (auto simp: Let_def split: if_splits)
      moreover have "(fst (?fl ! ?it) - n, snd (?fl ! ?it) + n) \<le> ?fl ! ?it"
        using shrink_le [OF gt, of "snd (?fl ! ?it)"] by simp
      ultimately show ?thesis
        using sorted_sort_prefix_update [OF s lt] by simp
    qed
  qed
qed

lemma sorted_free: "sorted (free_list a) \<Longrightarrow> sorted (free_list (free a lidx n))"
  by (simp add: free_def)

lemma sorted_free_image: "sorted (free_list a) \<Longrightarrow> sorted (free_list (free_image a img))"
  by (simp add: free_image_def Let_def split: prod.splits)

lemma sorted_alloc_step:
  assumes "sorted (free_list a)" and "alloc_step (a, bitmaps) x = Inr (a', bitmaps')"
  shows "sorted (free_list a')"
proof (cases x)
  case (Alloc n)
  then obtain lidx where "alloc a bitmaps n = Inr (lidx, a', bitmaps')"
    using assms(2) by (auto split: sum.splits)
  with assms(1) show ?thesis by (rule sorted_alloc)
next
  case (Free lidx n)
  then show ?thesis using assms by (auto simp: sorted_free)
next
  case (FreeImage img)
  then show ?thesis using assms by (auto simp: sorted_free_image)
qed

text \<open>
  Claim C9. The free list is kept sorted by \<open>(count, start_lidx)\<close>: it is empty, hence
  sorted, in a new allocator, and whenever a thread runs any sequence of
  \<^verbatim>\<open>alloc(n)\<close>, \<^verbatim>\<open>free(lidx, n)\<close> and \<^verbatim>\<open>free(image[], size)\<close> on an allocator whose
  free list is sorted, the free list is sorted again after every one of them.
\<close>

theorem free_list_kept_sorted:
  assumes "sorted (free_list a)" and "alloc_run (a, bitmaps) ops = Inr (a', bitmaps')"
  shows "sorted (free_list a')"
  using assms
proof (induction ops arbitrary: a bitmaps)
  case Nil
  then show ?case by simp
next
  case (Cons x ops)
  from Cons.prems(2) obtain a1 b1 where
    st: "alloc_step (a, bitmaps) x = Inr (a1, b1)" and rest: "alloc_run (a1, b1) ops = Inr (a', bitmaps')"
    by (auto split: sum.splits)
  from Cons.prems(1) st have "sorted (free_list a1)" by (rule sorted_alloc_step)
  then show ?case using rest by (rule Cons.IH)
qed

theorem free_list_kept_sorted_witness:
  "sorted (free_list new_Allocator) \<and>
   alloc_run (new_Allocator, [1, 0, 0])
     [Alloc 3, Alloc 5, Free 64 3, Alloc 2, FreeImage [0, 70, 71, 72, 0, 90, 91, 5, 0],
      Alloc 64, Alloc 1]
     = Inr (\<lparr>recent_bitmap_idx = 129, free_list = [(1, 66), (2, 90), (3, 70), (56, 72)]\<rparr>,
            [1, BITMAP_ALL_USED, BITMAP_ALL_USED]) \<and>
   sorted (free_list
     \<lparr>recent_bitmap_idx = 129, free_list = [(1, 66), (2, 90), (3, 70), (56, 72)]\<rparr>)"
proof -
  have s: "sorted (free_list new_Allocator)"
    by (simp add: new_Allocator_def)
  have r: "alloc_run (new_Allocator, [1, 0, 0])
     [Alloc 3, Alloc 5, Free 64 3, Alloc 2, FreeImage [0, 70, 71, 72, 0, 90, 91, 5, 0],
      Alloc 64, Alloc 1]
     = Inr (\<lparr>recent_bitmap_idx = 129, free_list = [(1, 66), (2, 90), (3, 70), (56, 72)]\<rparr>,
            [1, BITMAP_ALL_USED, BITMAP_ALL_USED])"
    by code_simp
  show ?thesis
    by (rule conjI [OF s conjI [OF r free_list_kept_sorted [OF s r]]])
qed

section \<open>\<^verbatim>\<open>Allocator::alloc\<close>: best fit from the free list, else a fresh run\<close>

lemma alloc_all_zero: "alloc_all 0 = (0, BITMAP_ALL_USED)"
  by (simp add: alloc_all_def compare_exchange_def)

lemma alloc_all_nonzero: "b \<noteq> 0 \<Longrightarrow> alloc_all b = (- 1, b)"
  by (simp add: alloc_all_def)

lemma alloc_batch_loop_first_free:
  assumes "idx \<le> k" and "k < num" and "bitmaps ! k = 0"
    and "\<forall>j. idx \<le> j \<and> j < k \<longrightarrow> bitmaps ! j \<noteq> 0"
  shows "alloc_batch_loop bitmaps num idx = (int (push_bit 6 k), bitmaps[k := BITMAP_ALL_USED])"
  using assms
proof (induction "k - idx" arbitrary: idx)
  case 0
  then have "idx = k" by simp
  then show ?case using 0
    by (subst alloc_batch_loop.simps) (simp add: alloc_all_zero)
next
  case (Suc d)
  then have lt: "idx < k" by simp
  then have nz: "bitmaps ! idx \<noteq> 0" using Suc.prems by simp
  have "alloc_batch_loop bitmaps num idx = alloc_batch_loop bitmaps num (idx + 1)"
    using lt Suc.prems(2) nz by (subst alloc_batch_loop.simps) (simp add: alloc_all_nonzero)
  moreover have "alloc_batch_loop bitmaps num (idx + 1)
      = (int (push_bit 6 k), bitmaps[k := BITMAP_ALL_USED])"
  proof (rule Suc.hyps(1))
    show "d = k - (idx + 1)" using Suc.hyps(2) by simp
    show "idx + 1 \<le> k" using lt by simp
    show "k < num" by (rule Suc.prems(2))
    show "bitmaps ! k = 0" by (rule Suc.prems(3))
    show "\<forall>j. idx + 1 \<le> j \<and> j < k \<longrightarrow> bitmaps ! j \<noteq> 0" using Suc.prems(4) by simp
  qed
  ultimately show ?case by simp
qed

lemma alloc_batch_loop_none_free:
  assumes "\<forall>j. idx \<le> j \<and> j < num \<longrightarrow> bitmaps ! j \<noteq> 0"
  shows "alloc_batch_loop bitmaps num idx = (- 1, bitmaps)"
  using assms
proof (induction "num - idx" arbitrary: idx)
  case 0
  then show ?case by (subst alloc_batch_loop.simps) simp
next
  case (Suc d)
  then have lt: "idx < num" by simp
  then have nz: "bitmaps ! idx \<noteq> 0" using Suc.prems by simp
  have "alloc_batch_loop bitmaps num idx = alloc_batch_loop bitmaps num (idx + 1)"
    using lt nz by (subst alloc_batch_loop.simps) (simp add: alloc_all_nonzero)
  moreover have "alloc_batch_loop bitmaps num (idx + 1) = (- 1, bitmaps)"
  proof (rule Suc.hyps(1))
    show "d = num - (idx + 1)" using Suc.hyps(2) by simp
    show "\<forall>j. idx + 1 \<le> j \<and> j < num \<longrightarrow> bitmaps ! j \<noteq> 0" using Suc.prems by simp
  qed
  ultimately show ?case by simp
qed

lemma pair_zero_le: "((n :: 32 word, 0 :: 32 word) \<le> e) \<longleftrightarrow> n \<le> fst e"
  by (cases e) (auto simp: less_eq_prod_def)

lemma pair_less_zero: "(e < (n :: 32 word, 0 :: 32 word)) \<longleftrightarrow> fst e < n"
  by (cases e) (auto simp: less_prod_def)

lemma lower_bound_miss:
  assumes "\<forall>e\<in>set fl. fst e < n"
  shows "lower_bound fl (n, 0) = length fl"
proof -
  have "\<forall>x\<in>set fl. x < (n, 0)"
    using assms by (simp add: pair_less_zero)
  then have "takeWhile (\<lambda>x. x < (n, 0)) fl = fl"
    by (rule takeWhile_eq_all_conv [THEN iffD2])
  then show ?thesis unfolding lower_bound_def by (rule arg_cong)
qed


lemma alloc_from_bitmap_first_free:
  assumes r: "0 \<le> recent_bitmap_idx a"
    and k: "nat (recent_bitmap_idx a) div 64 \<le> k" "k < length bitmaps" "bitmaps ! k = 0"
    and before: "\<forall>j. nat (recent_bitmap_idx a) div 64 \<le> j \<and> j < k \<longrightarrow> bitmaps ! j \<noteq> 0"
  shows "alloc_from_bitmap a bitmaps n =
     Inr (word_of_nat (64 * k),
          a\<lparr>recent_bitmap_idx := int (64 * k) + 1,
            free_list := (if unat n < BITMAP_CAPACITY
                          then sort (free_list a @ [(64 - n, word_of_nat (64 * k) + n)])
                          else free_list a)\<rparr>,
          bitmaps[k := BITMAP_ALL_USED])"
proof -
  have d: "nat (drop_bit 6 (recent_bitmap_idx a)) = nat (recent_bitmap_idx a) div 64"
    using r by (simp add: drop_bit_eq_div nat_div_distrib)
  have "alloc_batch bitmaps (length bitmaps) (recent_bitmap_idx a)
      = (int (push_bit 6 k), bitmaps[k := BITMAP_ALL_USED])"
    unfolding alloc_batch_def d
    using k before by (intro alloc_batch_loop_first_free) auto
  moreover have "push_bit 6 k = 64 * k" by (simp add: push_bit_eq_mult)
  ultimately show ?thesis
    by (simp add: alloc_from_bitmap_def Let_def BITMAP_CAPACITY_def)
qed

lemma lower_bound_hit:
  assumes s: "sorted fl" and e: "e \<in> set fl" "n \<le> fst e"
    and least: "\<forall>e'\<in>set fl. n \<le> fst e' \<longrightarrow> e \<le> e'"
  shows "lower_bound fl (n, 0) < length fl" and "fl ! lower_bound fl (n, 0) = e"
proof -
  let ?i = "lower_bound fl (n, 0)"
  obtain j where j: "j < length fl" "fl ! j = e"
    using e(1) by (auto simp: in_set_conv_nth)
  have ij: "?i \<le> j"
  proof (rule ccontr)
    assume "\<not> ?i \<le> j"
    then have "fl ! j < (n, 0)" by (intro lower_bound_before) simp
    then show False using j e(2) by (simp add: pair_less_zero)
  qed
  then show lt: "?i < length fl" using j by simp
  then have "(n, 0) \<le> fl ! ?i" by (intro lower_bound_nth) simp
  then have "n \<le> fst (fl ! ?i)" by (simp add: pair_zero_le)
  moreover have "fl ! ?i \<in> set fl" using lt by simp
  ultimately have "e \<le> fl ! ?i" using least by blast
  moreover have "fl ! ?i \<le> fl ! j" using s ij j(1) by (rule sorted_nth_mono)
  ultimately show "fl ! ?i = e" using j(2) by simp
qed

lemma erase_first_occurrence:
  assumes i: "i < length xs" and notin: "xs ! i \<notin> set (take i xs)"
  shows "erase xs i = remove1 (xs ! i) xs"
proof -
  have "xs = take i xs @ xs ! i # drop (Suc i) xs"
    using i by (rule id_take_nth_drop)
  then have "remove1 (xs ! i) xs = remove1 (xs ! i) (take i xs @ xs ! i # drop (Suc i) xs)"
    by simp
  also have "\<dots> = take i xs @ drop (Suc i) xs"
    using notin by (simp add: remove1_append)
  finally show ?thesis by (simp add: erase_def)
qed

lemma lower_bound_not_before:
  assumes "n \<le> fst (fl ! lower_bound fl (n, 0))"
  shows "fl ! lower_bound fl (n, 0) \<notin> set (take (lower_bound fl (n, 0)) fl)"
proof
  let ?i = "lower_bound fl (n, 0)"
  assume "fl ! ?i \<in> set (take ?i fl)"
  then obtain j where j: "j < length (take ?i fl)" "take ?i fl ! j = fl ! ?i"
    by (auto simp: in_set_conv_nth)
  then have "j < ?i" by simp
  then have "fl ! j < (n, 0)" by (rule lower_bound_before)
  moreover have "fl ! j = fl ! ?i" using j by simp
  ultimately show False using assms by (simp add: pair_less_zero)
qed

lemma mset_sort_prefix_update:
  assumes i: "i < length xs"
  shows "mset (sort_prefix (xs[i := e']) (i + 1)) = mset (e' # remove1 (xs ! i) xs)"
proof -
  have t: "take (i + 1) (xs[i := e']) = take i xs @ [e']"
    using i by (simp add: take_Suc_conv_app_nth)
  have x: "xs = take i xs @ xs ! i # drop (Suc i) xs"
    using i by (rule id_take_nth_drop)
  have "mset xs = mset (take i xs) + {#xs ! i#} + mset (drop (Suc i) xs)"
    by (subst x) simp
  then have "mset (remove1 (xs ! i) xs) = mset (take i xs) + mset (drop (Suc i) xs)"
    by simp
  then show ?thesis
    unfolding sort_prefix_def t by simp
qed

text \<open>
  Claim C5, amended. Let \<open>n \<le> BITMAP_CAPACITY\<close>, the free list be sorted and none of
  its runs start at block 0 (the meta block; \<^verbatim>\<open>alloc\<close> asserts it). If \<open>e\<close> is the least
  entry with \<open>count \<ge> n\<close> (the smallest such count and, among equal counts, the smallest
  start), \<^verbatim>\<open>alloc(n)\<close> returns the start of \<open>e\<close>, removes \<open>e\<close> on an exact match and
  otherwise replaces it by \<open>(count - n, start_lidx + n)\<close> and leaves the list sorted; the
  bitmap is not touched. If no entry has \<open>count \<ge> n\<close> and word \<open>k\<close> is the first zero
  word of the bitmap from the cursor on, \<^verbatim>\<open>alloc(n)\<close> sets that word to all-ones, returns
  its first block \<open>64 * k\<close>, moves the cursor past it and, when \<open>n < BITMAP_CAPACITY\<close>,
  inserts the remainder \<open>(BITMAP_CAPACITY - n, 64 * k + n)\<close> into the free list; when
  \<open>n = BITMAP_CAPACITY\<close> it pushes nothing.
\<close>

theorem alloc_best_fit_or_fresh_run:
  assumes n: "unat n \<le> BITMAP_CAPACITY"
    and s: "sorted (free_list a)"
    and nz: "\<forall>e'\<in>set (free_list a). snd e' \<noteq> 0"
  shows
    "(e \<in> set (free_list a) \<and> n \<le> fst e \<and>
      (\<forall>e'\<in>set (free_list a). n \<le> fst e' \<longrightarrow> e \<le> e') \<longrightarrow>
        alloc a bitmaps n =
          Inr (snd e,
               a\<lparr>free_list :=
                   (if fst e = n then remove1 e (free_list a)
                    else sort ((fst e - n, snd e + n) # remove1 e (free_list a)))\<rparr>,
               bitmaps))
     \<and>
     ((\<forall>e'\<in>set (free_list a). fst e' < n) \<and> 0 \<le> recent_bitmap_idx a \<and>
      nat (recent_bitmap_idx a) div 64 \<le> k \<and> k < length bitmaps \<and> bitmaps ! k = 0 \<and>
      (\<forall>j. nat (recent_bitmap_idx a) div 64 \<le> j \<and> j < k \<longrightarrow> bitmaps ! j \<noteq> 0) \<longrightarrow>
        alloc a bitmaps n =
          Inr (word_of_nat (64 * k),
               a\<lparr>recent_bitmap_idx := int (64 * k) + 1,
                 free_list :=
                   (if unat n < BITMAP_CAPACITY
                    then sort (free_list a @ [(64 - n, word_of_nat (64 * k) + n)])
                    else free_list a)\<rparr>,
               bitmaps[k := BITMAP_ALL_USED]))"
proof (intro conjI impI)
  let ?fl = "free_list a"
  let ?i = "lower_bound ?fl (n, 0)"
  assume h: "e \<in> set ?fl \<and> n \<le> fst e \<and> (\<forall>e'\<in>set ?fl. n \<le> fst e' \<longrightarrow> e \<le> e')"
  then have lt: "?i < length ?fl" and at: "?fl ! ?i = e"
    using lower_bound_hit [OF s, of e n] by blast+
  have e0: "snd e \<noteq> 0" using h nz by blast
  have ne: "n \<le> fst e" using h by blast
  show "alloc a bitmaps n =
          Inr (snd e,
               a\<lparr>free_list :=
                   (if fst e = n then remove1 e ?fl
                    else sort ((fst e - n, snd e + n) # remove1 e ?fl))\<rparr>,
               bitmaps)"
  proof (cases "fst e = n")
    case True
    have "?fl ! ?i \<notin> set (take ?i ?fl)"
      using ne at by (intro lower_bound_not_before) simp
    then have "erase ?fl ?i = remove1 e ?fl"
      using erase_first_occurrence [OF lt] at by simp
    then show ?thesis
      using n lt at e0 True by (simp add: alloc_def Let_def)
  next
    case False
    then have gt: "n < fst e" using ne by (simp add: order.strict_iff_order)
    let ?e' = "(fst e - n, snd e + n)"
    have le: "?e' \<le> ?fl ! ?i"
      using shrink_le [OF gt, of "snd e"] at by simp
    have "sorted (sort_prefix (?fl[?i := ?e']) (?i + 1))"
      using s lt le by (rule sorted_sort_prefix_update)
    moreover have "mset (sort_prefix (?fl[?i := ?e']) (?i + 1)) = mset (?e' # remove1 e ?fl)"
      using mset_sort_prefix_update [OF lt, of ?e'] at by simp
    ultimately have "sort (?e' # remove1 e ?fl) = sort_prefix (?fl[?i := ?e']) (?i + 1)"
      by (intro properties_for_sort) simp_all
    then show ?thesis
      using n lt at e0 False gt by (simp add: alloc_def Let_def)
  qed
next
  assume h: "(\<forall>e'\<in>set (free_list a). fst e' < n) \<and> 0 \<le> recent_bitmap_idx a \<and>
      nat (recent_bitmap_idx a) div 64 \<le> k \<and> k < length bitmaps \<and> bitmaps ! k = 0 \<and>
      (\<forall>j. nat (recent_bitmap_idx a) div 64 \<le> j \<and> j < k \<longrightarrow> bitmaps ! j \<noteq> 0)"
  then have "lower_bound (free_list a) (n, 0) = length (free_list a)"
    by (intro lower_bound_miss) blast
  then have "alloc a bitmaps n = alloc_from_bitmap a bitmaps n"
    using n by (simp add: alloc_def Let_def)
  also have "\<dots> = Inr (word_of_nat (64 * k),
               a\<lparr>recent_bitmap_idx := int (64 * k) + 1,
                 free_list :=
                   (if unat n < BITMAP_CAPACITY
                    then sort (free_list a @ [(64 - n, word_of_nat (64 * k) + n)])
                    else free_list a)\<rparr>,
               bitmaps[k := BITMAP_ALL_USED])"
    using h by (intro alloc_from_bitmap_first_free) blast+
  finally show "alloc a bitmaps n =
          Inr (word_of_nat (64 * k),
               a\<lparr>recent_bitmap_idx := int (64 * k) + 1,
                 free_list :=
                   (if unat n < BITMAP_CAPACITY
                    then sort (free_list a @ [(64 - n, word_of_nat (64 * k) + n)])
                    else free_list a)\<rparr>,
               bitmaps[k := BITMAP_ALL_USED])" .
qed

theorem alloc_best_fit_or_fresh_run_witness:
  "alloc \<lparr>recent_bitmap_idx = 0, free_list = [(3, 100), (5, 200), (5, 300), (9, 50)]\<rparr> [1, 0] 4
     = Inr (200, \<lparr>recent_bitmap_idx = 0, free_list = [(1, 204), (3, 100), (5, 300), (9, 50)]\<rparr>,
            [1, 0]) \<and>
   alloc \<lparr>recent_bitmap_idx = 0, free_list = [(3, 100), (5, 200), (5, 300), (9, 50)]\<rparr> [1, 0] 10
     = Inr (64,
            \<lparr>recent_bitmap_idx = 65,
               free_list = [(3, 100), (5, 200), (5, 300), (9, 50), (54, 74)]\<rparr>,
            [1, BITMAP_ALL_USED])"
proof -
  let ?a = "\<lparr>recent_bitmap_idx = 0, free_list = [(3, 100), (5, 200), (5, 300), (9 :: 32 word, 50 :: 32 word)]\<rparr>"
  have s: "sorted (free_list ?a)" by (simp add: less_eq_prod_def)
  have nz: "\<forall>e'\<in>set (free_list ?a). snd e' \<noteq> 0" by simp
  have n4: "unat (4 :: 32 word) \<le> BITMAP_CAPACITY" by (simp add: BITMAP_CAPACITY_def)
  have n10: "unat (10 :: 32 word) \<le> BITMAP_CAPACITY" by (simp add: BITMAP_CAPACITY_def)
  have hit: "(5, 200) \<in> set (free_list ?a) \<and> (4 :: 32 word) \<le> fst (5 :: 32 word, 200 :: 32 word) \<and>
      (\<forall>e'\<in>set (free_list ?a). 4 \<le> fst e' \<longrightarrow> (5, 200) \<le> e')"
    by (simp add: less_eq_prod_def)
  have miss: "(\<forall>e'\<in>set (free_list ?a). fst e' < 10) \<and> 0 \<le> recent_bitmap_idx ?a \<and>
      nat (recent_bitmap_idx ?a) div 64 \<le> 1 \<and> 1 < length [1 :: bitmap, 0] \<and> [1 :: bitmap, 0] ! 1 = 0 \<and>
      (\<forall>j. nat (recent_bitmap_idx ?a) div 64 \<le> j \<and> j < 1 \<longrightarrow> [1 :: bitmap, 0] ! j \<noteq> 0)"
    by simp
  have a: "alloc ?a [1, 0] 4 = Inr (200, \<lparr>recent_bitmap_idx = 0, free_list = [(1, 204), (3, 100), (5, 300), (9, 50)]\<rparr>, [1, 0])"
    using alloc_best_fit_or_fresh_run [where e = "(5, 200)" and bitmaps = "[1, 0]" and k = 0,
        OF n4 s nz, THEN conjunct1, rule_format, OF hit]
    by (simp add: less_eq_prod_def)
  have b: "alloc ?a [1, 0] 10 = Inr (64, \<lparr>recent_bitmap_idx = 65,
               free_list = [(3, 100), (5, 200), (5, 300), (9, 50), (54, 74)]\<rparr>, [1, BITMAP_ALL_USED])"
    using alloc_best_fit_or_fresh_run [where e = "(0, 0)" and bitmaps = "[1, 0]" and k = 1,
        OF n10 s nz, THEN conjunct2, rule_format, OF miss]
    by (simp add: BITMAP_CAPACITY_def less_eq_prod_def)
  from a b show ?thesis by (rule conjI)
qed

text \<open>
  Claim C5 as stated fails at \<open>n = BITMAP_CAPACITY\<close>: the claim has the remainder
  \<open>(BITMAP_CAPACITY - n, lidx + n) = (0, 128)\<close> pushed onto the free list; the code, under
  its guard \<^verbatim>\<open>if (num_blocks < BITMAP_CAPACITY)\<close>, pushes nothing.
\<close>

theorem alloc_whole_word_pushes_nothing:
  "alloc new_Allocator [1, 0] 64
     = Inr (64, \<lparr>recent_bitmap_idx = 65, free_list = []\<rparr>, [1, BITMAP_ALL_USED]) \<and>
   alloc new_Allocator [1, 0] 64
     \<noteq> Inr (64, \<lparr>recent_bitmap_idx = 65, free_list = [(0, 128)]\<rparr>, [1, BITMAP_ALL_USED])"
  by code_simp

section \<open>\<^verbatim>\<open>MemTable::init\<close>: the alignment check and the growth of the file\<close>

lemma grow_unit_size_pos: "0 < grow_unit_size p"
  by (simp add: grow_unit_size_def push_bit_eq_mult)

lemma off_t_id: "- (2 ^ 63) \<le> x \<Longrightarrow> x < 2 ^ 63 \<Longrightarrow> off_t x = x"
  unfolding off_t_def by (rule signed_take_bit_int_eq_self) simp_all

lemma next_multiple:
  fixes x g :: int
  assumes g: "0 < g" and na: "x mod g \<noteq> 0"
  shows "g dvd (x div g + 1) * g" and "x < (x div g + 1) * g" and "(x div g + 1) * g < x + g"
proof -
  show "g dvd (x div g + 1) * g" by simp
  have e: "(x div g + 1) * g = x - x mod g + g"
    by (simp add: algebra_simps minus_mod_eq_mult_div)
  have "x mod g < g" using g by simp
  then show "x < (x div g + 1) * g" using e by simp
  have "0 \<le> x mod g" using g by simp
  then have "0 < x mod g" using na by simp
  then show "(x div g + 1) * g < x + g" using e by simp
qed

lemma quotient_in_range:
  fixes x g :: int
  assumes g: "0 < g" and lo: "- (2 ^ 63) \<le> x" and hi: "x + g < 2 ^ 63"
  shows "- (2 ^ 63) \<le> x div g + 1" and "x div g + 1 < 2 ^ 63"
proof -
  have g1: "1 \<le> g" using g by simp
  have "(- (2 ^ 63 :: int)) div 1 \<le> (- (2 ^ 63)) div g"
    using g1 by (intro zdiv_mono2_neg) simp_all
  then have "- (2 ^ 63 :: int) \<le> (- (2 ^ 63)) div g" by simp
  moreover have "(- (2 ^ 63)) div g \<le> x div g" using lo g by (rule zdiv_mono1)
  ultimately show "- (2 ^ 63) \<le> x div g + 1" by simp
  show "x div g + 1 < 2 ^ 63"
  proof (cases "0 \<le> x")
    case True
    then have "x div g \<le> x div 1" using g1 by (intro zdiv_mono2) simp_all
    then show ?thesis using hi g by simp
  next
    case False
    then have "x div g < 0" using g by (intro div_neg_pos_less0) simp_all
    then show ?thesis by simp
  qed
qed

lemma init_not_block_aligned:
  "\<not> IS_ALIGNED file_size (int BLOCK_SIZE) \<Longrightarrow>
     init p h mt fd' file_size = ([], Some (Inl InvalidLayout))"
  by (simp add: init_def)

text \<open>Once the file has to grow, to the length \<open>r\<close>: what \<^verbatim>\<open>init\<close> does next depends on
  what \<^verbatim>\<open>ftruncate\<close> and \<^verbatim>\<open>mmap\<close> return.\<close>

lemma init_grows:
  assumes b: "IS_ALIGNED file_size (int BLOCK_SIZE)"
    and grow: "file_size = 0 \<or> \<not> IS_ALIGNED file_size (grow_unit_size p)"
    and r: "r = (if file_size = 0 then prealloc_size p
                 else off_t (push_bit (grow_unit_shift p)
                               (off_t (drop_bit (grow_unit_shift p) file_size + 1))))"
  shows "ftruncate_ret h fd' r \<noteq> 0 \<Longrightarrow>
           init p h mt fd' file_size = ([Ftruncate fd' r], Some (Inl FailToFtruncate))"
    and "ftruncate_ret h fd' r = 0 \<Longrightarrow>
           fst (init p h mt fd' file_size) = [Ftruncate fd' r, Mmap r fd' 0]"
    and "ftruncate_ret h fd' r = 0 \<Longrightarrow> \<not> mmap_ok h r fd' 0 \<Longrightarrow>
           snd (init p h mt fd' file_size) = Some (Inl FailToMmap)"
  using b grow unfolding r by (auto simp: init_def Let_def)

lemma next_grow_unit:
  assumes ng: "\<not> IS_ALIGNED file_size (grow_unit_size p)"
    and lo: "- (2 ^ 63) \<le> file_size" and hi: "file_size + grow_unit_size p < 2 ^ 63"
  shows "off_t (push_bit (grow_unit_shift p)
                  (off_t (drop_bit (grow_unit_shift p) file_size + 1)))
           = (file_size div grow_unit_size p + 1) * grow_unit_size p"
proof -
  let ?g = "grow_unit_size p"
  let ?r = "(file_size div ?g + 1) * ?g"
  have g: "0 < ?g" by (rule grow_unit_size_pos)
  have q: "off_t (file_size div ?g + 1) = file_size div ?g + 1"
    using quotient_in_range [OF g lo hi] by (intro off_t_id)
  have "file_size < ?r" and "?r < file_size + ?g"
    using next_multiple [OF g, of file_size] ng by (simp_all add: IS_ALIGNED_def)
  then have "off_t ?r = ?r" using lo hi by (intro off_t_id) simp_all
  then show ?thesis
    using q by (simp add: grow_unit_size_def push_bit_eq_mult drop_bit_eq_div)
qed

text \<open>
  Claim C7. \<^verbatim>\<open>MemTable::init\<close> throws, before any system call, for every \<open>file_size\<close>
  that is not a multiple of the block size. For a block-aligned \<open>file_size\<close> that is zero
  or not a multiple of \<^verbatim>\<open>grow_unit_size\<close>, let \<open>r\<close> be the next multiple of
  \<^verbatim>\<open>grow_unit_size\<close> after \<open>file_size\<close>. The first system call of \<^verbatim>\<open>init\<close> is
  \<^verbatim>\<open>ftruncate(fd, r)\<close>. When that fails, \<^verbatim>\<open>init\<close> throws and maps nothing; when it
  succeeds, the only other call is the \<^verbatim>\<open>mmap\<close> of the \<open>r\<close> bytes, after it.

  For the empty file the code takes \<^verbatim>\<open>LayoutParams::prealloc_size\<close> (config.h, not among
  the sources at hand). It is one grow unit: \<^verbatim>\<open>MemTable::get_addr\<close> maps
  \<^verbatim>\<open>prealloc_size\<close> bytes for each entry of the table, and an entry stands for one grow
  unit. For a file that is not empty, \<open>file_size\<close> is an \<^verbatim>\<open>off_t\<close>, and so is \<open>r\<close>.
\<close>

theorem init_rejects_unaligned_and_grows_before_mapping:
  "(\<not> IS_ALIGNED file_size (int BLOCK_SIZE) \<longrightarrow>
      init p h mt fd' file_size = ([], Some (Inl InvalidLayout))) \<and>
   (IS_ALIGNED file_size (int BLOCK_SIZE) \<and>
    (file_size = 0 \<and> prealloc_size p = grow_unit_size p \<or>
     \<not> IS_ALIGNED file_size (grow_unit_size p) \<and>
     - (2 ^ 63) \<le> file_size \<and> file_size + grow_unit_size p < 2 ^ 63) \<longrightarrow>
      (\<exists>r. grow_unit_size p dvd r \<and> file_size < r \<and> r \<le> file_size + grow_unit_size p \<and>
           (ftruncate_ret h fd' r \<noteq> 0 \<longrightarrow>
              init p h mt fd' file_size = ([Ftruncate fd' r], Some (Inl FailToFtruncate))) \<and>
           (ftruncate_ret h fd' r = 0 \<longrightarrow>
              fst (init p h mt fd' file_size) = [Ftruncate fd' r, Mmap r fd' 0] \<and>
              (\<not> mmap_ok h r fd' 0 \<longrightarrow>
                 snd (init p h mt fd' file_size) = Some (Inl FailToMmap)))))"
proof (intro conjI impI)
  assume "\<not> IS_ALIGNED file_size (int BLOCK_SIZE)"
  then show "init p h mt fd' file_size = ([], Some (Inl InvalidLayout))"
    by (rule init_not_block_aligned)
next
  let ?g = "grow_unit_size p"
  let ?code = "if file_size = 0 then prealloc_size p
               else off_t (push_bit (grow_unit_shift p)
                             (off_t (drop_bit (grow_unit_shift p) file_size + 1)))"
  let ?r = "(file_size div ?g + 1) * ?g"
  assume a: "IS_ALIGNED file_size (int BLOCK_SIZE) \<and>
    (file_size = 0 \<and> prealloc_size p = ?g \<or>
     \<not> IS_ALIGNED file_size ?g \<and> - (2 ^ 63) \<le> file_size \<and> file_size + ?g < 2 ^ 63)"
  have g: "0 < ?g" by (rule grow_unit_size_pos)
  have b: "IS_ALIGNED file_size (int BLOCK_SIZE)" using a by simp
  have grow: "file_size = 0 \<or> \<not> IS_ALIGNED file_size ?g" using a by blast
  have r: "?r = ?code \<and> file_size < ?r \<and> ?r \<le> file_size + ?g"
  proof (cases "file_size = 0")
    case True
    then show ?thesis using a g by (simp add: IS_ALIGNED_def)
  next
    case False
    then have ng: "\<not> IS_ALIGNED file_size ?g" and lo: "- (2 ^ 63) \<le> file_size"
      and hi: "file_size + ?g < 2 ^ 63"
      using a by simp_all
    have "file_size < ?r" and "?r < file_size + ?g"
      using next_multiple [OF g, of file_size] ng by (simp_all add: IS_ALIGNED_def)
    then show ?thesis using False next_grow_unit [OF ng lo hi] by simp
  qed
  then have c: "?r = ?code" by simp
  show "\<exists>r. ?g dvd r \<and> file_size < r \<and> r \<le> file_size + ?g \<and>
           (ftruncate_ret h fd' r \<noteq> 0 \<longrightarrow>
              init p h mt fd' file_size = ([Ftruncate fd' r], Some (Inl FailToFtruncate))) \<and>
           (ftruncate_ret h fd' r = 0 \<longrightarrow>
              fst (init p h mt fd' file_size) = [Ftruncate fd' r, Mmap r fd' 0] \<and>
              (\<not> mmap_ok h r fd' 0 \<longrightarrow>
                 snd (init p h mt fd' file_size) = Some (Inl FailToMmap)))"
  proof (intro exI [of _ ?r] conjI impI)
    show "?g dvd ?r" by simp
    show "file_size < ?r" using r by simp
    show "?r \<le> file_size + ?g" using r by simp
    show "init p h mt fd' file_size = ([Ftruncate fd' ?r], Some (Inl FailToFtruncate))"
      if "ftruncate_ret h fd' ?r \<noteq> 0"
      using that by (rule init_grows(1) [OF b grow c])
    show "fst (init p h mt fd' file_size) = [Ftruncate fd' ?r, Mmap ?r fd' 0]"
      if "ftruncate_ret h fd' ?r = 0"
      using that by (rule init_grows(2) [OF b grow c])
    show "snd (init p h mt fd' file_size) = Some (Inl FailToMmap)"
      if "ftruncate_ret h fd' ?r = 0" and "\<not> mmap_ok h ?r fd' 0"
      using that by (rule init_grows(3) [OF b grow c])
  qed
qed

theorem init_rejects_unaligned_and_grows_before_mapping_witness:
  "init \<lparr>grow_unit_shift = 21, prealloc_size = 2097152\<rparr> host_all_ok new_MemTable 3 4097
     = ([], Some (Inl InvalidLayout)) \<and>
   fst (init \<lparr>grow_unit_shift = 21, prealloc_size = 2097152\<rparr> host_all_ok new_MemTable 3 0)
     = [Ftruncate 3 2097152, Mmap 2097152 3 0] \<and>
   init \<lparr>grow_unit_shift = 21, prealloc_size = 2097152\<rparr>
        \<lparr>ftruncate_ret = (\<lambda>fd len. - 1), mmap_ok = (\<lambda>len fd off. True)\<rparr> new_MemTable 3 0
     = ([Ftruncate 3 2097152], Some (Inl FailToFtruncate)) \<and>
   fst (init \<lparr>grow_unit_shift = 21, prealloc_size = 2097152\<rparr> host_all_ok new_MemTable 3
          2105344)
     = [Ftruncate 3 4194304, Mmap 4194304 3 0] \<and>
   snd (init \<lparr>grow_unit_shift = 21, prealloc_size = 2097152\<rparr>
          \<lparr>ftruncate_ret = (\<lambda>fd len. 0), mmap_ok = (\<lambda>len fd off. False)\<rparr> new_MemTable 3
          2105344)
     = Some (Inl FailToMmap)"
proof -
  let ?p = "\<lparr>grow_unit_shift = 21, prealloc_size = 2097152\<rparr>"
  let ?bad = "\<lparr>ftruncate_ret = (\<lambda>fd len. - 1), mmap_ok = (\<lambda>len fd off. True)\<rparr>"
  let ?nomap = "\<lparr>ftruncate_ret = (\<lambda>fd len. 0), mmap_ok = (\<lambda>len fd off. False)\<rparr>"
  have g: "grow_unit_size ?p = 2097152"
    by (simp add: grow_unit_size_def)
  have a: "\<not> IS_ALIGNED 4097 (int BLOCK_SIZE)"
    by (simp add: IS_ALIGNED_def BLOCK_SIZE_def)
  have z: "IS_ALIGNED 0 (int BLOCK_SIZE) \<and>
    ((0 :: int) = 0 \<and> prealloc_size ?p = grow_unit_size ?p \<or>
     \<not> IS_ALIGNED 0 (grow_unit_size ?p) \<and>
     - (2 ^ 63) \<le> (0 :: int) \<and> 0 + grow_unit_size ?p < 2 ^ 63)"
    by (simp add: IS_ALIGNED_def g)
  have c: "IS_ALIGNED 2105344 (int BLOCK_SIZE) \<and>
    ((2105344 :: int) = 0 \<and> prealloc_size ?p = grow_unit_size ?p \<or>
     \<not> IS_ALIGNED 2105344 (grow_unit_size ?p) \<and>
     - (2 ^ 63) \<le> (2105344 :: int) \<and> 2105344 + grow_unit_size ?p < 2 ^ 63)"
    by (simp add: IS_ALIGNED_def BLOCK_SIZE_def g)
  have r0: "r = 2097152" if "2097152 dvd r" "0 < r" "r \<le> 0 + 2097152" for r :: int
  proof -
    from that(1) obtain k where k: "r = 2097152 * k" by (elim dvdE)
    then have "0 < k" and "k \<le> 1" using that(2, 3) by simp_all
    then have "k = 1" by simp
    then show ?thesis using k by simp
  qed
  have r1: "r = 4194304" if "2097152 dvd r" "2105344 < r" "r \<le> 2105344 + 2097152" for r :: int
  proof -
    from that(1) obtain k where k: "r = 2097152 * k" by (elim dvdE)
    then have "1 < k" and "k < 3" using that(2, 3) by simp_all
    then have "k = 2" by simp
    then show ?thesis using k by simp
  qed
  note t = init_rejects_unaligned_and_grows_before_mapping [where p = ?p and fd' = 3
      and mt = new_MemTable]
  have 1: "init ?p host_all_ok new_MemTable 3 4097 = ([], Some (Inl InvalidLayout))"
    using t [where file_size = 4097 and h = host_all_ok, THEN conjunct1] a by blast
  have 2: "fst (init ?p host_all_ok new_MemTable 3 0) = [Ftruncate 3 2097152, Mmap 2097152 3 0]"
    using t [where file_size = 0 and h = host_all_ok, THEN conjunct2, rule_format, OF z] r0
    unfolding g by (auto simp: host_all_ok_def)
  have 3: "init ?p ?bad new_MemTable 3 0 = ([Ftruncate 3 2097152], Some (Inl FailToFtruncate))"
    using t [where file_size = 0 and h = ?bad, THEN conjunct2, rule_format, OF z] r0
    unfolding g by auto
  have 4: "fst (init ?p host_all_ok new_MemTable 3 2105344)
      = [Ftruncate 3 4194304, Mmap 4194304 3 0]"
    using t [where file_size = 2105344 and h = host_all_ok, THEN conjunct2, rule_format, OF c] r1
    unfolding g by (auto simp: host_all_ok_def)
  have 5: "snd (init ?p ?nomap new_MemTable 3 2105344) = Some (Inl FailToMmap)"
    using t [where file_size = 2105344 and h = ?nomap, THEN conjunct2, rule_format, OF c] r1
    unfolding g by auto
  from 1 2 3 4 5 show ?thesis by blast
qed

section \<open>\<^verbatim>\<open>File::overwrite\<close>: the payload is durable before the commit\<close>

lemma update_in_sync: "length (tx_log f) \<le> tail_tx_idx f \<Longrightarrow> update f = Inr f"
  by (subst update.simps) simp

lemma update_unfold:
  assumes "tail_tx_idx f < length (tx_log f)"
    and "apply_tx (table f) (log_entries f ! (tx_log f ! tail_tx_idx f)) = Inr t"
  shows "update f = update (f\<lparr>table := t, tail_tx_idx := tail_tx_idx f + 1\<rparr>)"
  using assms by (subst update.simps) simp

lemma update_keeps:
  "update f = Inr f' \<Longrightarrow>
     pmem f' = pmem f \<and> durable f' = durable f \<and> log_entries f' = log_entries f \<and>
     tx_log f' = tx_log f \<and> allocator f' = allocator f \<and> bitmap f' = bitmap f \<and>
     block_addr f' = block_addr f"
proof (induction f rule: update.induct)
  case (1 f)
  show ?case
  proof (cases "tail_tx_idx f < length (tx_log f)")
    case False
    then have "update f = Inr f" by (intro update_in_sync) simp
    then show ?thesis using "1.prems" by simp
  next
    case True
    then obtain t where t: "apply_tx (table f) (log_entries f ! (tx_log f ! tail_tx_idx f)) = Inr t"
      using "1.prems" by (subst (asm) update.simps) (auto split: sum.splits)
    then have "update (f\<lparr>table := t, tail_tx_idx := tail_tx_idx f + 1\<rparr>) = Inr f'"
      using update_unfold [OF True t] "1.prems" by simp
    then show ?thesis using "1.IH" [OF True t] by simp
  qed
qed

lemma get_addr_cong: "block_addr f = block_addr g \<Longrightarrow> get_addr f = get_addr g"
  by (rule ext) (simp add: get_addr_def)

lemma write_data_keeps:
  "tx_log (write_data f buf cnt lo sv sl) = tx_log f"
  "log_entries (write_data f buf cnt lo sv sl) = log_entries f"
  "table (write_data f buf cnt lo sv sl) = table f"
  "tail_tx_idx (write_data f buf cnt lo sv sl) = tail_tx_idx f"
  "allocator (write_data f buf cnt lo sv sl) = allocator f"
  "bitmap (write_data f buf cnt lo sv sl) = bitmap f"
  "block_addr (write_data f buf cnt lo sv sl) = block_addr f"
  by (simp_all add: write_data_def Let_def)

lemma write_data_persists_payload:
  assumes "unat cnt + unat lo < 2 ^ 64" and "i < unat cnt"
  shows "durable (write_data f buf cnt lo sv sl) (get_addr f sl + unat lo + i) = buf ! i"
proof -
  have "unat (cnt + lo) = unat cnt + unat lo"
    using assms(1) by (simp add: unat_add_lem [THEN iffD1])
  then show ?thesis
    using assms(2) by (simp add: write_data_def Let_def persist_fenced_def memcpy_def)
qed

lemma overwrite_states_alloc_failed:
  "alloc (allocator f) (bitmap f) (num_blocks_of cnt offset) = Inl err \<Longrightarrow>
     overwrite_states f buf cnt offset = ([], Inl err)"
  by (simp add: overwrite_states_def Let_def)

text \<open>The four states an \<^verbatim>\<open>overwrite\<close> passes through once the allocation has
  succeeded, before the replay.\<close>

lemma overwrite_states_allocated:
  fixes buf :: "byte list"
  assumes "alloc (allocator f) (bitmap f) (num_blocks_of cnt offset) = Inr (sl, a, b)"
  defines "f1 \<equiv> f\<lparr>allocator := a, bitmap := b\<rparr>"
  defines "f2 \<equiv> write_data f1 buf cnt (local_offset_of offset) (start_virtual_idx_of offset) sl"
  defines "f3 \<equiv> f2\<lparr>log_entries := log_entries f2 @
      [\<lparr>begin_virtual_idx = start_virtual_idx_of offset, begin_logical_idx = sl,
        num_blocks = num_blocks_of cnt offset, last_remaining = last_remaining_of cnt offset\<rparr>]\<rparr>"
  defines "f4 \<equiv> f3\<lparr>tx_log := tx_log f3 @ [length (log_entries f2)]\<rparr>"
  shows "overwrite_states f buf cnt offset =
     (case update f4 of
        Inl err \<Rightarrow> ([f1, f2, f3, f4], Inl err)
      | Inr f5 \<Rightarrow> ([f1, f2, f3, f4, f5], Inr cnt))"
  using assms(1)
  by (simp add: overwrite_states_def Let_def write_log_entry_def commit_tx_def begin_tx_def
      f1_def f2_def f3_def f4_def write_data_keeps split: sum.splits)

text \<open>
  Claim C2. In every execution of \<^verbatim>\<open>File::overwrite\<close>, in every state the file passes
  through in which the commit entry of the transaction is in the log, the payload is
  durable: persistent memory holds \<open>buf\<close> at the \<open>cnt\<close> bytes from \<open>local_offset\<close>
  on in the freshly allocated blocks (\<^verbatim>\<open>count + local_offset\<close> not wrapping around in
  64 bits). The \<^verbatim>\<open>persist_fenced\<close> of \<^verbatim>\<open>write_data\<close> comes before \<^verbatim>\<open>commit_tx\<close>.
\<close>

theorem payload_durable_before_commit_visible:
  assumes nowrap: "unat cnt + unat (local_offset_of offset) < 2 ^ 64"
    and s: "s \<in> set (fst (overwrite_states f buf cnt offset))"
    and visible: "length (tx_log f) < length (tx_log s)"
    and i: "i < unat cnt"
  shows "durable s (get_addr s (begin_logical_idx (log_entries s ! last (tx_log s)))
                      + unat (local_offset_of offset) + i) = buf ! i"
proof (cases "alloc (allocator f) (bitmap f) (num_blocks_of cnt offset)")
  case (Inl err)
  then show ?thesis using s by (simp add: overwrite_states_alloc_failed)
next
  case (Inr r)
  then obtain sl a b where al: "alloc (allocator f) (bitmap f) (num_blocks_of cnt offset) = Inr (sl, a, b)"
    by (cases r) auto
  define f1 where "f1 = f\<lparr>allocator := a, bitmap := b\<rparr>"
  define f2 where "f2 = write_data f1 buf cnt (local_offset_of offset) (start_virtual_idx_of offset) sl"
  define e where "e = \<lparr>begin_virtual_idx = start_virtual_idx_of offset, begin_logical_idx = sl,
        num_blocks = num_blocks_of cnt offset, last_remaining = last_remaining_of cnt offset\<rparr>"
  define f3 where "f3 = f2\<lparr>log_entries := log_entries f2 @ [e]\<rparr>"
  define f4 where "f4 = f3\<lparr>tx_log := tx_log f3 @ [length (log_entries f2)]\<rparr>"
  have st: "overwrite_states f buf cnt offset =
     (case update f4 of
        Inl err \<Rightarrow> ([f1, f2, f3, f4], Inl err)
      | Inr f5 \<Rightarrow> ([f1, f2, f3, f4, f5], Inr cnt))"
    unfolding f1_def f2_def f3_def f4_def e_def by (rule overwrite_states_allocated [OF al])
  have log: "tx_log f1 = tx_log f" "tx_log f2 = tx_log f" "tx_log f3 = tx_log f"
    by (simp_all add: f1_def f2_def f3_def write_data_keeps)
  have d2: "durable f2 (get_addr f1 sl + unat (local_offset_of offset) + i) = buf ! i"
    unfolding f2_def using nowrap i by (rule write_data_persists_payload)
  have ad: "get_addr f4 = get_addr f1"
    by (rule get_addr_cong) (simp add: f4_def f3_def f2_def write_data_keeps)
  have p4: "durable f4 = durable f2" "log_entries f4 = log_entries f2 @ [e]"
    "tx_log f4 = tx_log f @ [length (log_entries f2)]"
    by (simp_all add: f4_def f3_def log)
  have at4: "begin_logical_idx (log_entries f4 ! last (tx_log f4)) = sl"
    by (simp add: p4 e_def)
  have goal4: "durable f4 (get_addr f4 (begin_logical_idx (log_entries f4 ! last (tx_log f4)))
                      + unat (local_offset_of offset) + i) = buf ! i"
    unfolding at4 ad using d2 by (simp add: p4)
  show ?thesis
  proof (cases "update f4")
    case (Inl err)
    then have "s \<in> {f1, f2, f3, f4}" using s st by simp
    then have "s = f4" using visible log by auto
    then show ?thesis using goal4 by simp
  next
    case (Inr f5)
    then have k: "durable f5 = durable f4" "log_entries f5 = log_entries f4" "tx_log f5 = tx_log f4"
      "block_addr f5 = block_addr f4"
      using update_keeps [of f4 f5] by simp_all
    from k(4) have k5: "get_addr f5 = get_addr f4" by (rule get_addr_cong)
    have "s \<in> {f1, f2, f3, f4, f5}" using s st Inr by simp
    then have "s = f4 \<or> s = f5" using visible log by auto
    then show ?thesis using goal4 k(1-3) k5 by auto
  qed
qed

lemma overwrite_states_last:
  assumes "alloc (allocator f) (bitmap f) (num_blocks_of cnt offset) = Inr (sl, a, b)"
  shows "fst (overwrite_states f buf cnt offset) \<noteq> []"
    and "tx_log (last (fst (overwrite_states f buf cnt offset)))
           = tx_log f @ [length (log_entries f)]"
proof -
  define f1 where "f1 = f\<lparr>allocator := a, bitmap := b\<rparr>"
  define f2 where "f2 = write_data f1 buf cnt (local_offset_of offset) (start_virtual_idx_of offset) sl"
  define e where "e = \<lparr>begin_virtual_idx = start_virtual_idx_of offset, begin_logical_idx = sl,
        num_blocks = num_blocks_of cnt offset, last_remaining = last_remaining_of cnt offset\<rparr>"
  define f3 where "f3 = f2\<lparr>log_entries := log_entries f2 @ [e]\<rparr>"
  define f4 where "f4 = f3\<lparr>tx_log := tx_log f3 @ [length (log_entries f2)]\<rparr>"
  have st: "overwrite_states f buf cnt offset =
     (case update f4 of
        Inl err \<Rightarrow> ([f1, f2, f3, f4], Inl err)
      | Inr f5 \<Rightarrow> ([f1, f2, f3, f4, f5], Inr cnt))"
    unfolding f1_def f2_def f3_def f4_def e_def by (rule overwrite_states_allocated [OF assms])
  have l4: "tx_log f4 = tx_log f @ [length (log_entries f)]"
    by (simp add: f4_def f3_def f2_def f1_def write_data_keeps)
  show "fst (overwrite_states f buf cnt offset) \<noteq> []"
    unfolding st by (simp split: sum.splits)
  show "tx_log (last (fst (overwrite_states f buf cnt offset)))
           = tx_log f @ [length (log_entries f)]"
  proof (cases "update f4")
    case (Inl err)
    then show ?thesis unfolding st by (simp add: l4)
  next
    case (Inr f5)
    then have "tx_log f5 = tx_log f4" using update_keeps [of f4 f5] by simp
    then show ?thesis unfolding st using Inr by (simp add: l4)
  qed
qed

lemma alloc_new_File_1:
  "alloc (allocator new_File) (bitmap new_File) 1
     = Inr (64, \<lparr>recent_bitmap_idx = 65, free_list = [(63, 65)]\<rparr>,
            1 # BITMAP_ALL_USED # replicate 14 0)"
  by code_simp

lemma geometry_3_100:
  "start_virtual_idx_of 100 = 0" "local_offset_of 100 = 100"
  "num_blocks_of 3 100 = 1" "last_remaining_of 3 100 = 3993"
  by code_simp+

theorem payload_durable_before_commit_visible_witness:
  "unat (3 :: 64 word) + unat (local_offset_of 100) < 2 ^ 64 \<and>
   last (fst (overwrite_states new_File [0x58, 0x59, 0x5A] 3 100))
     \<in> set (fst (overwrite_states new_File [0x58, 0x59, 0x5A] 3 100)) \<and>
   length (tx_log new_File)
     < length (tx_log (last (fst (overwrite_states new_File [0x58, 0x59, 0x5A] 3 100)))) \<and>
   1 < unat (3 :: 64 word) \<and>
   durable (last (fst (overwrite_states new_File [0x58, 0x59, 0x5A] 3 100)))
     (get_addr (last (fst (overwrite_states new_File [0x58, 0x59, 0x5A] 3 100)))
        (begin_logical_idx
        (log_entries (last (fst (overwrite_states new_File [0x58, 0x59, 0x5A] 3 100)))
           ! last (tx_log (last (fst (overwrite_states new_File [0x58, 0x59, 0x5A] 3 100))))))
      + unat (local_offset_of 100) + 1) = 0x59"
proof -
  let ?ss = "fst (overwrite_states new_File [0x58, 0x59, 0x5A] 3 100)"
  have al: "alloc (allocator new_File) (bitmap new_File) (num_blocks_of 3 100)
     = Inr (64, \<lparr>recent_bitmap_idx = 65, free_list = [(63, 65)]\<rparr>,
            1 # BITMAP_ALL_USED # replicate 14 0)"
    by (simp add: geometry_3_100 alloc_new_File_1)
  have 1: "unat (3 :: 64 word) + unat (local_offset_of 100) < 2 ^ 64"
    by (simp add: geometry_3_100)
  have 2: "last ?ss \<in> set ?ss"
    using overwrite_states_last(1) [OF al] by (intro last_in_set)
  have 3: "length (tx_log new_File) < length (tx_log (last ?ss))"
    using overwrite_states_last(2) [OF al, of "[0x58, 0x59, 0x5A]"] by simp
  have 4: "1 < unat (3 :: 64 word)" by simp
  have "durable (last ?ss)
     (get_addr (last ?ss)
        (begin_logical_idx (log_entries (last ?ss) ! last (tx_log (last ?ss))))
      + unat (local_offset_of 100) + 1) = [0x58, 0x59, 0x5A] ! 1"
    by (rule payload_durable_before_commit_visible [OF 1 2 3 4])
  then show ?thesis using 1 2 3 4 by simp
qed

section \<open>The block table after replay, and reads of unmapped blocks\<close>



















































section \<open>Two writes into one block, then a read\<close>

text \<open>One \<^verbatim>\<open>overwrite\<close> on a file whose block table is up to date, given what the
  allocator and the replay of the new entry return.\<close>

lemma overwrite_in_sync:
  fixes buf :: "byte list"
  assumes sync: "tail_tx_idx f = length (tx_log f)"
    and al: "alloc (allocator f) (bitmap f) (num_blocks_of cnt offset) = Inr (sl, a, b)"
    and ap: "apply_tx (table f)
               \<lparr>begin_virtual_idx = start_virtual_idx_of offset, begin_logical_idx = sl,
                num_blocks = num_blocks_of cnt offset,
                last_remaining = last_remaining_of cnt offset\<rparr> = Inr t"
  shows "\<exists>f'. overwrite f buf cnt offset = Inr (f', cnt) \<and> table f' = t \<and>
           tail_tx_idx f' = length (tx_log f') \<and> allocator f' = a \<and> bitmap f' = b \<and>
           block_addr f' = block_addr f \<and>
           pmem f' = pmem (write_data f buf cnt (local_offset_of offset)
                               (start_virtual_idx_of offset) sl)"
proof -
  define e where "e = \<lparr>begin_virtual_idx = start_virtual_idx_of offset, begin_logical_idx = sl,
        num_blocks = num_blocks_of cnt offset, last_remaining = last_remaining_of cnt offset\<rparr>"
  define f1 where "f1 = f\<lparr>allocator := a, bitmap := b\<rparr>"
  define f2 where "f2 = write_data f1 buf cnt (local_offset_of offset) (start_virtual_idx_of offset) sl"
  define f3 where "f3 = f2\<lparr>log_entries := log_entries f2 @ [e]\<rparr>"
  define f4 where "f4 = f3\<lparr>tx_log := tx_log f3 @ [length (log_entries f2)]\<rparr>"
  define f5 where "f5 = f4\<lparr>table := t, tail_tx_idx := tail_tx_idx f4 + 1\<rparr>"
  have st: "overwrite_states f buf cnt offset =
     (case update f4 of
        Inl err \<Rightarrow> ([f1, f2, f3, f4], Inl err)
      | Inr f5 \<Rightarrow> ([f1, f2, f3, f4, f5], Inr cnt))"
    unfolding f1_def f2_def f3_def f4_def e_def by (rule overwrite_states_allocated [OF al])
  have k4: "tail_tx_idx f4 = length (tx_log f)" "tx_log f4 = tx_log f @ [length (log_entries f)]"
    "log_entries f4 = log_entries f @ [e]" "table f4 = table f"
    by (simp_all add: f4_def f3_def f2_def f1_def write_data_keeps sync)
  have lt: "tail_tx_idx f4 < length (tx_log f4)" by (simp add: k4)
  have "log_entries f4 ! (tx_log f4 ! tail_tx_idx f4) = e" by (simp add: k4)
  then have "apply_tx (table f4) (log_entries f4 ! (tx_log f4 ! tail_tx_idx f4)) = Inr t"
    using ap by (simp add: k4 e_def)
  then have "update f4 = update f5"
    unfolding f5_def by (rule update_unfold [OF lt])
  moreover have "update f5 = Inr f5"
    by (rule update_in_sync) (simp add: f5_def k4)
  ultimately have u: "update f4 = Inr f5" by simp
  have "overwrite f buf cnt offset = Inr (f5, cnt)"
    by (simp add: overwrite_def st u)
  moreover have "pmem f5 = pmem (write_data f buf cnt (local_offset_of offset)
                               (start_virtual_idx_of offset) sl)"
    by (simp add: f5_def f4_def f3_def f2_def f1_def write_data_def Let_def get_addr_def)
  moreover have "table f5 = t" "tail_tx_idx f5 = length (tx_log f5)" "allocator f5 = a"
    "bitmap f5 = b" "block_addr f5 = block_addr f"
    by (simp_all add: f5_def f4_def f3_def f2_def f1_def write_data_keeps k4 sync)
  ultimately show ?thesis by blast
qed

text \<open>A \<^verbatim>\<open>pread\<close> that lies in one mapped block.\<close>

lemma pread_one_block:
  assumes "num_blocks_of cnt offset = 1"
    and "blk_table_get (table f) (start_virtual_idx_of offset) = lidx" and "lidx \<noteq> 0"
  shows "pread f cnt offset =
     Inr (map (pmem f)
            [get_addr f lidx + unat (local_offset_of offset) ..<
             get_addr f lidx + unat (local_offset_of offset) +
               unat (word_of_nat BLOCK_SIZE - local_offset_of offset
                       - ucast (last_remaining_of cnt offset))],
          cnt)"
proof -
  have "pread_loop f (start_virtual_idx_of offset) (local_offset_of offset)
          (last_remaining_of cnt offset) 1 1 acc = Inr acc" for acc
    by (subst pread_loop.simps) simp
  then have "pread_loop f (start_virtual_idx_of offset) (local_offset_of offset)
          (last_remaining_of cnt offset) 1 0 [] =
     Inr (map (pmem f)
            [get_addr f lidx + unat (local_offset_of offset) ..<
             get_addr f lidx + unat (local_offset_of offset) +
               unat (word_of_nat BLOCK_SIZE - local_offset_of offset
                       - ucast (last_remaining_of cnt offset))])"
    using assms(2, 3)
    by (subst pread_loop.simps) (simp add: get_data_block_ptr_def Let_def)
  then show ?thesis using assms(1) by (simp add: pread_def)
qed

lemma geometry_2_0:
  "start_virtual_idx_of 0 = 0" "local_offset_of 0 = 0"
  "num_blocks_of 2 0 = 1" "last_remaining_of 2 0 = 4094"
  by code_simp+

lemma alloc_second_block:
  "alloc \<lparr>recent_bitmap_idx = 65, free_list = [(63, 65)]\<rparr>
     (1 # BITMAP_ALL_USED # replicate 14 0) 1
     = Inr (65, \<lparr>recent_bitmap_idx = 65, free_list = [(62, 66)]\<rparr>,
            1 # BITMAP_ALL_USED # replicate 14 0)"
  by code_simp

lemma apply_tx_first:
  "apply_tx [] \<lparr>begin_virtual_idx = 0, begin_logical_idx = 64, num_blocks = 1,
                last_remaining = 3993\<rparr> = Inr [64, 0]"
  by code_simp

lemma apply_tx_second:
  "apply_tx [64, 0] \<lparr>begin_virtual_idx = 0, begin_logical_idx = 65, num_blocks = 1,
                last_remaining = 4094\<rparr> = Inr [65, 0]"
  by code_simp


text \<open>
  Claim C1, at two writes with disjoint byte ranges in one block of a new file:
  \<^verbatim>\<open>pwrite("XYZ", 3, 100)\<close>, then \<^verbatim>\<open>pwrite("ab", 2, 0)\<close>. After the first write,
  \<^verbatim>\<open>pread(_, 3, 100)\<close> returns \<^verbatim>\<open>"XYZ"\<close>. The second write goes to a fresh block, into
  which \<^verbatim>\<open>write_data\<close> copies the bytes before the written range but not the bytes
  after it; the claim has \<^verbatim>\<open>pread(_, 3, 100)\<close> still return \<^verbatim>\<open>"XYZ"\<close>, the code
  returns three zero bytes.
\<close>

theorem pread_after_second_write_in_block:
  "pread_after new_File [([0x58, 0x59, 0x5A], 3, 100)] 3 100 = Inr ([0x58, 0x59, 0x5A], 3) \<and>
   pread_after new_File [([0x58, 0x59, 0x5A], 3, 100), ([0x61, 0x62], 2, 0)] 3 100
     = Inr ([0, 0, 0], 3)"
proof -
  let ?xyz = "[0x58, 0x59, 0x5A] :: byte list" and ?ab = "[0x61, 0x62] :: byte list"
  have s0: "tail_tx_idx new_File = length (tx_log new_File)"
    by (simp add: new_File_def)
  have al0: "alloc (allocator new_File) (bitmap new_File) (num_blocks_of 3 100)
     = Inr (64, \<lparr>recent_bitmap_idx = 65, free_list = [(63, 65)]\<rparr>,
            1 # BITMAP_ALL_USED # replicate 14 0)"
    by (simp add: geometry_3_100 alloc_new_File_1)
  have ap0: "apply_tx (table new_File)
               \<lparr>begin_virtual_idx = start_virtual_idx_of 100, begin_logical_idx = 64,
                num_blocks = num_blocks_of 3 100,
                last_remaining = last_remaining_of 3 100\<rparr> = Inr [64, 0]"
    using apply_tx_first by (simp add: geometry_3_100 new_File_def)
  obtain f1 where w1: "overwrite new_File ?xyz 3 100 = Inr (f1, 3)"
    and t1: "table f1 = [64, 0]" and s1: "tail_tx_idx f1 = length (tx_log f1)"
    and a1: "allocator f1 = \<lparr>recent_bitmap_idx = 65, free_list = [(63, 65)]\<rparr>"
    and b1: "bitmap f1 = 1 # BITMAP_ALL_USED # replicate 14 0"
    and d1: "block_addr f1 = block_addr new_File"
    and i1: "pmem f1 = pmem (write_data new_File ?xyz 3 (local_offset_of 100)
                               (start_virtual_idx_of 100) 64)"
    using overwrite_in_sync [OF s0 al0 ap0, of ?xyz] by blast
  have al1: "alloc (allocator f1) (bitmap f1) (num_blocks_of 2 0)
     = Inr (65, \<lparr>recent_bitmap_idx = 65, free_list = [(62, 66)]\<rparr>,
            1 # BITMAP_ALL_USED # replicate 14 0)"
    by (simp add: geometry_2_0 a1 b1 alloc_second_block)
  have ap1: "apply_tx (table f1)
               \<lparr>begin_virtual_idx = start_virtual_idx_of 0, begin_logical_idx = 65,
                num_blocks = num_blocks_of 2 0,
                last_remaining = last_remaining_of 2 0\<rparr> = Inr [65, 0]"
    using apply_tx_second by (simp add: geometry_2_0 t1)
  obtain f2 where w2: "overwrite f1 ?ab 2 0 = Inr (f2, 2)"
    and t2: "table f2 = [65, 0]"
    and d2: "block_addr f2 = block_addr f1"
    and i2: "pmem f2 = pmem (write_data f1 ?ab 2 (local_offset_of 0)
                               (start_virtual_idx_of 0) 65)"
    using overwrite_in_sync [OF s1 al1 ap1, of ?ab] by blast
  have r1: "pread f1 3 100 = Inr (?xyz, 3)"
    by (subst pread_one_block [where lidx = 64])
      (simp_all add: geometry_3_100 t1 d1 blk_table_get_def i1 write_data_def Let_def
        memcpy_def get_addr_def BLOCK_SIZE_def new_File_def new_pmem_def)
  have r2: "pread f2 3 100 = Inr ([0, 0, 0], 3)"
    by (subst pread_one_block [where lidx = 65])
      (simp_all add: geometry_3_100 geometry_2_0 t1 t2 d1 d2 blk_table_get_def i1 i2
        write_data_def Let_def memcpy_def get_addr_def BLOCK_SIZE_def new_File_def
        new_pmem_def)
  show ?thesis
    by (simp add: pread_after_def w1 w2 r1 r2)
qed

section \<open>The entry points \<^verbatim>\<open>write\<close> and \<^verbatim>\<open>read\<close> of the library\<close>

text \<open>Neither entry point looks at \<^verbatim>\<open>files\<close> or changes it: no \<^verbatim>\<open>File\<close>, and so no
  transaction log, is involved.\<close>

lemma lib_write_keeps_files: "files (snd (lib_write debug st fd' buf cnt)) = files st"
  by (simp add: lib_write_def Let_def split: prod.splits)

lemma lib_read_keeps_files: "files (snd (lib_read debug st fd' cnt)) = files st"
  by (simp add: lib_read_def Let_def split: prod.splits)

text \<open>
  Claim C8, at \<^verbatim>\<open>write(3, "TEST\n", 5)\<close> on a file just created through the shim. The
  claim has the call run \<^verbatim>\<open>TxMgr::do_write\<close> on \<^verbatim>\<open>files[3]\<close>; the code hands it to the
  host: the \<^verbatim>\<open>File\<close> is as it was, with no transaction in its log, and the five bytes
  are in the host file at position 0, over the signature of the meta block.
\<close>

theorem lib_write_goes_to_the_host:
  "fst (lib_write False opened_new_file 3 [0x54, 0x45, 0x53, 0x54, 0x0A] 5) = 5 \<and>
   files (snd (lib_write False opened_new_file 3 [0x54, 0x45, 0x53, 0x54, 0x0A] 5)) 3
     = Some new_File \<and>
   tx_log new_File = [] \<and>
   map (k_content (kernel (snd (lib_write False opened_new_file 3
                                  [0x54, 0x45, 0x53, 0x54, 0x0A] 5)) 3)) [0, 1, 2, 3, 4, 5]
     = [0x54, 0x45, 0x53, 0x54, 0x0A, 0x53] \<and>
   map new_pmem [0, 1, 2, 3, 4, 5] = [0x55, 0x4C, 0x41, 0x59, 0x46, 0x53]"
  by (simp add: lib_write_def posix_write_def opened_new_file_def memcpy_def new_pmem_def
      new_File_def Let_def)

end
